theory Spec2Isabelle
  imports Complex_Main
begin

section \<open>The persistent store\<close>

text \<open>
  The store is the SQLite database of \<^verbatim>\<open>src/database/schema.sql\<close>: one list of rows per
  table, and the \<^verbatim>\<open>AUTOINCREMENT\<close> counter of every table. A column of type \<^verbatim>\<open>REAL\<close>
  holds a double, here the rational number it stands for; the arithmetic on doubles is
  defined below. \<^verbatim>\<open>DATETIME\<close> columns are natural numbers read from a clock that every
  handler receives as \<open>now\<close>, and the \<^verbatim>\<open>BOOLEAN\<close> columns, which the code only ever writes
  as 0 or 1, are booleans. The column \<^verbatim>\<open>users.username\<close>, which no statement of the
  program names, is left out.
\<close>

record user_row =
  u_id :: nat
  u_email :: string
  u_password :: string
  u_role :: string
  u_binance_wallet :: "string option"
  u_earnings :: rat
  u_created_at :: nat
  u_updated_at :: nat
  u_is_active :: bool

record category_row =
  c_id :: nat
  c_name :: string
  c_description :: "string option"

record product_row =
  p_id :: nat
  p_name :: string
  p_description :: "string option"
  p_price :: rat
  p_stock :: int
  p_category_id :: nat
  p_image_url :: "string option"
  p_is_active :: bool
  p_created_at :: nat
  p_updated_at :: nat

record order_row =
  o_id :: nat
  o_buyer_id :: nat
  o_seller_id :: "nat option"
  o_status :: string
  o_total_amount :: rat
  o_contact_name :: "string option"
  o_contact_email :: "string option"
  o_contact_phone :: "string option"
  o_contact_info :: "string option"
  o_payment_proof :: "string option"
  o_binance_txid :: "string option"
  o_created_at :: nat
  o_updated_at :: nat

record order_item_row =
  oi_id :: nat
  oi_order_id :: nat
  oi_product_id :: nat
  oi_quantity :: int
  oi_price :: rat

record transaction_row =
  t_id :: nat
  t_order_id :: nat
  t_user_id :: nat
  t_amount :: rat
  t_binance_txid :: "string option"
  t_payment_proof_url :: "string option"
  t_status :: string
  t_created_at :: nat

record seller_earning_row =
  se_id :: nat
  se_seller_id :: nat
  se_order_id :: nat
  se_amount :: rat
  se_created_at :: nat

record db =
  users :: "user_row list"
  categories :: "category_row list"
  products :: "product_row list"
  orders :: "order_row list"
  order_items :: "order_item_row list"
  transactions :: "transaction_row list"
  seller_earnings :: "seller_earning_row list"
  seq_users :: nat
  seq_products :: nat
  seq_orders :: nat
  seq_order_items :: nat
  seq_transactions :: nat
  seq_seller_earnings :: nat

text \<open>
  The columns of \<^verbatim>\<open>transactions\<close> as \<^verbatim>\<open>schema.sql\<close> declares them. SQLite resolves the
  column names of a statement when it is prepared, so an \<^verbatim>\<open>UPDATE\<close> that sets a column
  missing from this list makes \<^verbatim>\<open>db.prepare\<close> throw.
\<close>

definition transactions_columns :: "string list" where
  "transactions_columns =
     [''id'', ''order_id'', ''user_id'', ''amount'', ''binance_txid'',
      ''payment_proof_url'', ''status'', ''created_at'']"

text \<open>\<^verbatim>\<open>getOne\<close> of \<^verbatim>\<open>db.js\<close>: the first row of the result, or \<^verbatim>\<open>null\<close>.\<close>

definition getOne :: "'a list \<Rightarrow> 'a option" where
  "getOne results = (case results of [] \<Rightarrow> None | r # _ \<Rightarrow> Some r)"

section \<open>Numbers\<close>

text \<open>
  JavaScript numbers and SQLite's \<^verbatim>\<open>REAL\<close> values are IEEE 754 doubles: 53 significant
  bits, and below \<^verbatim>\<open>2^-1022\<close> a fixed step of \<^verbatim>\<open>2^-1074\<close>. \<open>dbl x\<close> is the double
  nearest to \<open>x\<close>, ties going to the even significand; it is what \<^verbatim>\<open>JSON.parse\<close> makes of a
  decimal number, and what \<^verbatim>\<open>+\<close> and \<^verbatim>\<open>*\<close> make of the exact sum and product of two
  doubles. The two zeros are one number here, as they compare equal. A result beyond
  the largest double, which the code holds as \<^verbatim>\<open>Infinity\<close>, is outside the model.
  Ids, stocks and the quantities of order lines are integers, which a double holds exactly
  up to \<^verbatim>\<open>2^53\<close>; the model takes them as unbounded integers.
\<close>

text \<open>The number of binary digits of a positive integer.\<close>

function bits :: "int \<Rightarrow> int" where
  "bits k = (if k \<le> 0 then 0 else 1 + bits (k div 2))"
  by pat_completeness auto
termination
  by (relation "measure nat") auto

declare bits.simps [simp del]

definition pow2 :: "int \<Rightarrow> rat" where
  "pow2 k = (if 0 \<le> k then 2 ^ nat k else 1 / 2 ^ nat (- k))"

text \<open>The exponent \<open>e\<close> with \<^verbatim>\<open>2^e <= a < 2^(e+1)\<close>, for a positive \<open>a\<close>.\<close>

definition ilog2 :: "rat \<Rightarrow> int" where
  "ilog2 a =
     (let (p, q) = quotient_of a; k = bits p - bits q
      in if pow2 k \<le> a then k else k - 1)"

definition round_even :: "rat \<Rightarrow> int" where
  "round_even m =
     (let f = \<lfloor>m\<rfloor>; r = m - of_int f
      in if r < 1 / 2 then f else if 1 / 2 < r then f + 1 else if even f then f else f + 1)"

definition dbl :: "rat \<Rightarrow> rat" where
  "dbl x =
     (if x = 0 then 0
      else (let q = max (ilog2 \<bar>x\<bar> - 52) (- 1074)
            in sgn x * of_int (round_even (\<bar>x\<bar> / pow2 q)) * pow2 q))"

definition dadd :: "rat \<Rightarrow> rat \<Rightarrow> rat" where
  "dadd x y = dbl (x + y)"

definition dmul :: "rat \<Rightarrow> rat \<Rightarrow> rat" where
  "dmul x y = dbl (x * y)"

section \<open>Request values\<close>

text \<open>
  A field of a JSON body that may be absent is an \<open>option\<close>, \<open>None\<close> standing for
  \<^verbatim>\<open>undefined\<close>. A number of a body is the decimal the request writes, and the handler
  sees the double \<open>dbl\<close> of it. JavaScript's truthiness of such a field, and its
  \<^verbatim>\<open>a || b\<close>:
\<close>

definition truthy_str :: "string option \<Rightarrow> bool" where
  "truthy_str v = (case v of None \<Rightarrow> False | Some s \<Rightarrow> s \<noteq> [])"

definition truthy_nat :: "nat option \<Rightarrow> bool" where
  "truthy_nat v = (case v of None \<Rightarrow> False | Some n \<Rightarrow> n \<noteq> 0)"

definition truthy_num :: "rat option \<Rightarrow> bool" where
  "truthy_num v = (case v of None \<Rightarrow> False | Some x \<Rightarrow> dbl x \<noteq> 0)"

definition or_str :: "string option \<Rightarrow> string option \<Rightarrow> string option" where
  "or_str a b = (if truthy_str a then a else b)"

definition or_nat :: "nat option \<Rightarrow> nat option \<Rightarrow> nat option" where
  "or_nat a b = (if truthy_nat a then a else b)"

text \<open>
  The bearer token after \<^verbatim>\<open>jwt.verify\<close>, which is a collaborator outside the code:
  absent, rejected by the verification, or valid with the decoded \<^verbatim>\<open>userId\<close>.
\<close>

datatype token = NoToken | InvalidToken | ValidToken nat

text \<open>
  What a mutating handler answers: the HTTP status, and the values of the body that
  the properties below speak about.
\<close>

datatype response =
    Status nat
  | OrderCreated nat rat
  | NewEarnings rat
  | Created nat

fun status_of :: "response \<Rightarrow> nat" where
  "status_of (Status s) = s"
| "status_of (OrderCreated order_id total_amount) = 201"
| "status_of (NewEarnings new_earnings) = 200"
| "status_of (Created new_id) = 201"

section \<open>Auth guard (\<^verbatim>\<open>src/middleware/auth.js\<close>)\<close>

definition authenticateToken :: "db \<Rightarrow> token \<Rightarrow> nat + user_row" where
  "authenticateToken d tok =
     (case tok of
        NoToken \<Rightarrow> Inl 401
      | InvalidToken \<Rightarrow> Inl 403
      | ValidToken userId \<Rightarrow>
          (case getOne (filter (\<lambda>u. u_id u = userId \<and> u_is_active u) (users d)) of
             None \<Rightarrow> Inl 401
           | Some user \<Rightarrow> Inr user))"

text \<open>
  \<^verbatim>\<open>authenticateToken\<close> followed by \<^verbatim>\<open>requireRole(...allowedRoles)\<close>, then the handler
  \<open>k\<close> with \<^verbatim>\<open>req.user\<close>. A refused request leaves the store as it is.
\<close>

definition requireRole :: "db \<Rightarrow> token \<Rightarrow> string list \<Rightarrow> (user_row \<Rightarrow> db \<times> response) \<Rightarrow> db \<times> response" where
  "requireRole d tok allowedRoles k =
     (case authenticateToken d tok of
        Inl s \<Rightarrow> (d, Status s)
      | Inr user \<Rightarrow>
          if u_role user \<in> set allowedRoles then k user else (d, Status 403))"

definition authenticated :: "db \<Rightarrow> token \<Rightarrow> (user_row \<Rightarrow> db \<times> response) \<Rightarrow> db \<times> response" where
  "authenticated d tok k =
     (case authenticateToken d tok of Inl s \<Rightarrow> (d, Status s) | Inr user \<Rightarrow> k user)"

section \<open>Order engine (\<^verbatim>\<open>src/routes/orders.js\<close>)\<close>

text \<open>
  A line of an order names a product and a quantity. The quantity is an integer, JSON's
  \<^verbatim>\<open>null\<close>, or absent (\<^verbatim>\<open>undefined\<close>); the handler never checks which.
\<close>

datatype quantity = Quantity int | Null | Absent

record order_line =
  product_id :: nat
  quantity :: quantity

record order_body =
  items :: "order_line list"
  contact_name :: "string option"
  contact_email :: "string option"
  contact_phone :: "string option"
  contact_info :: "string option"

text \<open>
  \<^verbatim>\<open>product.stock < item.quantity\<close> and \<^verbatim>\<open>product.price * item.quantity\<close>: in both
  \<^verbatim>\<open>null\<close> counts as 0 and \<^verbatim>\<open>undefined\<close> as \<^verbatim>\<open>NaN\<close>, with which every comparison is
  false and every product and sum \<^verbatim>\<open>NaN\<close> again. \<open>None\<close> is \<^verbatim>\<open>NaN\<close>.
\<close>

definition stock_short :: "int \<Rightarrow> quantity \<Rightarrow> bool" where
  "stock_short stock q = (case q of Quantity n \<Rightarrow> stock < n | Null \<Rightarrow> stock < 0 | Absent \<Rightarrow> False)"

definition line_amount :: "rat \<Rightarrow> quantity \<Rightarrow> rat option" where
  "line_amount price q =
     (case q of Quantity n \<Rightarrow> Some (dmul price (of_int n)) | Null \<Rightarrow> Some (dmul price 0) | Absent \<Rightarrow> None)"

definition add_amount :: "rat option \<Rightarrow> rat option \<Rightarrow> rat option" where
  "add_amount tot a = (case (tot, a) of (Some x, Some y) \<Rightarrow> Some (dadd x y) | _ \<Rightarrow> None)"

text \<open>
  The first loop of \<^verbatim>\<open>POST /orders\<close>: every line is checked against the stock the
  product has in the store at that moment, and the total is accumulated. \<open>Inl\<close> is the
  early \<^verbatim>\<open>return res.status(400)\<close>.
\<close>

fun verify_stock :: "product_row list \<Rightarrow> order_line list \<Rightarrow> rat option \<Rightarrow> nat + rat option" where
  "verify_stock ps [] tot = Inr tot"
| "verify_stock ps (item # rest) tot =
     (case getOne (filter (\<lambda>p. p_id p = product_id item \<and> p_is_active p) ps) of
        None \<Rightarrow> Inl 400
      | Some prow \<Rightarrow>
          if stock_short (p_stock prow) (quantity item) then Inl 400
          else verify_stock ps rest (add_amount tot (line_amount (p_price prow) (quantity item))))"

definition insert_order_item :: "nat \<Rightarrow> nat \<Rightarrow> int \<Rightarrow> rat \<Rightarrow> db \<Rightarrow> db" where
  "insert_order_item orderId productId n price d =
     d\<lparr>order_items := order_items d @
          [\<lparr>oi_id = Suc (seq_order_items d), oi_order_id = orderId,
            oi_product_id = productId, oi_quantity = n, oi_price = price\<rparr>],
       seq_order_items := Suc (seq_order_items d)\<rparr>"

definition decrement_stock :: "nat \<Rightarrow> int \<Rightarrow> db \<Rightarrow> db" where
  "decrement_stock productId n d =
     d\<lparr>products := map (\<lambda>p. if p_id p = productId then p\<lparr>p_stock := p_stock p - n\<rparr> else p)
                          (products d)\<rparr>"

text \<open>
  The second loop: the price is read again (by id alone), the line is inserted and the
  stock decremented. Every statement is saved as it runs, so when one throws, the rows
  written so far stay; the flag says whether the loop ran to its end. \<^verbatim>\<open>product.price\<close>
  throws on a missing product, and the \<^verbatim>\<open>INSERT\<close> throws on a quantity that is \<^verbatim>\<open>null\<close>
  (the column is \<^verbatim>\<open>NOT NULL\<close>) or \<^verbatim>\<open>undefined\<close> (which cannot be bound).
\<close>

fun add_items :: "nat \<Rightarrow> order_line list \<Rightarrow> db \<Rightarrow> db \<times> bool" where
  "add_items orderId [] d = (d, True)"
| "add_items orderId (item # rest) d =
     (case getOne (filter (\<lambda>p. p_id p = product_id item) (products d)) of
        None \<Rightarrow> (d, False)
      | Some prow \<Rightarrow>
          (case quantity item of
             Quantity n \<Rightarrow>
               add_items orderId rest
                 (decrement_stock (product_id item) n
                    (insert_order_item orderId (product_id item) n (p_price prow) d))
           | _ \<Rightarrow> (d, False)))"

definition insert_order :: "nat \<Rightarrow> nat \<Rightarrow> rat \<Rightarrow> order_body \<Rightarrow> db \<Rightarrow> db" where
  "insert_order now buyer tot body d =
     d\<lparr>orders := orders d @
          [\<lparr>o_id = Suc (seq_orders d), o_buyer_id = buyer, o_seller_id = None,
            o_status = ''pending'', o_total_amount = tot,
            o_contact_name = contact_name body, o_contact_email = contact_email body,
            o_contact_phone = or_str (contact_phone body) None,
            o_contact_info = or_str (contact_info body) None,
            o_payment_proof = None, o_binance_txid = None,
            o_created_at = now, o_updated_at = now\<rparr>],
       seq_orders := Suc (seq_orders d)\<rparr>"

text \<open>
  \<^verbatim>\<open>POST /orders\<close>. A total that is \<^verbatim>\<open>NaN\<close> is bound as \<^verbatim>\<open>NULL\<close>, which the column
  \<^verbatim>\<open>total_amount\<close> refuses: the \<^verbatim>\<open>INSERT\<close> of the order throws.
\<close>

definition createOrder :: "nat \<Rightarrow> db \<Rightarrow> token \<Rightarrow> order_body \<Rightarrow> db \<times> response" where
  "createOrder now d tok body =
     requireRole d tok [''buyer''] (\<lambda>user.
       if items body = [] then (d, Status 400)
       else if \<not> truthy_str (contact_name body) then (d, Status 400)
       else if \<not> truthy_str (contact_email body) then (d, Status 400)
       else
         (case verify_stock (products d) (items body) (Some 0) of
            Inl s \<Rightarrow> (d, Status s)
          | Inr None \<Rightarrow> (d, Status 500)
          | Inr (Some tot) \<Rightarrow>
              (let d1 = insert_order now (u_id user) tot body d;
                   orderId = seq_orders d1
               in case add_items orderId (items body) d1 of
                    (d2, True) \<Rightarrow> (d2, OrderCreated orderId tot)
                  | (d2, False) \<Rightarrow> (d2, Status 500))))"

text \<open>
  \<^verbatim>\<open>PUT /orders/:id/status\<close>. A body without \<^verbatim>\<open>status\<close> takes the same branch as one
  with a string outside \<^verbatim>\<open>validStatuses\<close>, so the field is a plain string.
\<close>

record status_body =
  status :: string
  seller_id :: "nat option"

definition validStatuses :: "string list" where
  "validStatuses = [''pending'', ''processing'', ''completed'', ''cancelled'']"

definition updateStatus :: "nat \<Rightarrow> db \<Rightarrow> token \<Rightarrow> nat \<Rightarrow> status_body \<Rightarrow> db \<times> response" where
  "updateStatus now d tok orderId body =
     requireRole d tok [''seller'', ''superuser''] (\<lambda>user.
       if status body \<notin> set validStatuses then (d, Status 400)
       else
         (case getOne (filter (\<lambda>r. o_id r = orderId) (orders d)) of
            None \<Rightarrow> (d, Status 404)
          | Some order \<Rightarrow>
              if status body = ''processing'' \<and> \<not> truthy_nat (o_seller_id order)
              then (d\<lparr>orders := map (\<lambda>r. if o_id r = orderId
                                          then r\<lparr>o_status := status body,
                                                 o_seller_id := or_nat (seller_id body) (Some (u_id user)),
                                                 o_updated_at := now\<rparr>
                                          else r) (orders d)\<rparr>, Status 200)
              else (d\<lparr>orders := map (\<lambda>r. if o_id r = orderId
                                          then r\<lparr>o_status := status body, o_updated_at := now\<rparr>
                                          else r) (orders d)\<rparr>, Status 200)))"

text \<open>
  \<^verbatim>\<open>POST /orders/:id/payment-proof\<close>. Both body fields are bound as they come, and
  binding \<^verbatim>\<open>undefined\<close> throws in the first \<^verbatim>\<open>runQuery\<close>, before anything is written.
\<close>

record proof_body =
  payment_proof :: "string option"
  binance_txid :: "string option"

definition insert_transaction :: "nat \<Rightarrow> nat \<Rightarrow> nat \<Rightarrow> rat \<Rightarrow> string \<Rightarrow> string \<Rightarrow> db \<Rightarrow> db" where
  "insert_transaction now orderId userId amt txid proof d =
     d\<lparr>transactions := transactions d @
          [\<lparr>t_id = Suc (seq_transactions d), t_order_id = orderId, t_user_id = userId,
            t_amount = amt, t_binance_txid = Some txid, t_payment_proof_url = Some proof,
            t_status = ''pending'', t_created_at = now\<rparr>],
       seq_transactions := Suc (seq_transactions d)\<rparr>"

definition paymentProof :: "nat \<Rightarrow> db \<Rightarrow> token \<Rightarrow> nat \<Rightarrow> proof_body \<Rightarrow> db \<times> response" where
  "paymentProof now d tok orderId body =
     requireRole d tok [''buyer''] (\<lambda>user.
       case getOne (filter (\<lambda>r. o_id r = orderId \<and> o_buyer_id r = u_id user) (orders d)) of
         None \<Rightarrow> (d, Status 404)
       | Some order \<Rightarrow>
           (case (payment_proof body, binance_txid body) of
              (Some proof, Some txid) \<Rightarrow>
                (let d1 = d\<lparr>orders := map (\<lambda>r. if o_id r = orderId
                                                 then r\<lparr>o_payment_proof := Some proof,
                                                        o_binance_txid := Some txid,
                                                        o_updated_at := now\<rparr>
                                                 else r) (orders d)\<rparr>
                 in (insert_transaction now orderId (u_id user) (o_total_amount order) txid proof d1,
                     Status 200))
            | _ \<Rightarrow> (d, Status 500)))"

text \<open>
  \<^verbatim>\<open>GET /orders\<close> and \<^verbatim>\<open>GET /orders/:id\<close>: the rows a role may see, each with its order
  items joined to the product name. The join with \<^verbatim>\<open>users\<close> keeps the orders whose
  buyer exists. \<^verbatim>\<open>ORDER BY created_at DESC\<close> is a stable sort here; SQL leaves the order
  of rows with equal keys open.
\<close>

definition order_items_of :: "db \<Rightarrow> nat \<Rightarrow> (order_item_row \<times> string) list" where
  "order_items_of d orderId =
     concat (map (\<lambda>oi. map (\<lambda>p. (oi, p_name p)) (filter (\<lambda>p. oi_product_id oi = p_id p) (products d)))
                 (filter (\<lambda>oi. oi_order_id oi = orderId) (order_items d)))"

definition visible_orders :: "db \<Rightarrow> user_row \<Rightarrow> order_row list" where
  "visible_orders d user =
     filter (\<lambda>r. (\<exists>u \<in> set (users d). o_buyer_id r = u_id u) \<and>
                 (if u_role user = ''buyer'' then o_buyer_id r = u_id user
                  else if u_role user = ''seller''
                    then o_seller_id r = Some (u_id user) \<or> o_status r = ''pending''
                  else True))
            (orders d)"

definition listOrders :: "db \<Rightarrow> token \<Rightarrow> nat + (order_row \<times> (order_item_row \<times> string) list) list" where
  "listOrders d tok =
     (case authenticateToken d tok of
        Inl s \<Rightarrow> Inl s
      | Inr user \<Rightarrow>
          Inr (map (\<lambda>r. (r, order_items_of d (o_id r)))
                   (sort_key (\<lambda>r. - int (o_created_at r)) (visible_orders d user))))"

definition getOrder :: "db \<Rightarrow> token \<Rightarrow> nat \<Rightarrow> nat + (order_row \<times> (order_item_row \<times> string) list)" where
  "getOrder d tok orderId =
     (case authenticateToken d tok of
        Inl s \<Rightarrow> Inl s
      | Inr user \<Rightarrow>
          (case getOne (filter (\<lambda>r. o_id r = orderId \<and> (\<exists>u \<in> set (users d). o_buyer_id r = u_id u))
                               (orders d)) of
             None \<Rightarrow> Inl 404
           | Some order \<Rightarrow>
               if u_role user = ''buyer'' \<and> o_buyer_id order \<noteq> u_id user then Inl 403
               else if u_role user = ''seller'' \<and> o_seller_id order \<noteq> Some (u_id user)
                       \<and> o_status order = ''pending''
                 then Inr (order, order_items_of d (o_id order))
               else if u_role user = ''seller'' \<and> o_seller_id order \<noteq> Some (u_id user) then Inl 403
               else Inr (order, order_items_of d (o_id order))))"

section \<open>Payment bridge (\<^verbatim>\<open>routes/payments.js\<close>)\<close>

text \<open>
  \<^verbatim>\<open>POST /payments/create\<close>: only the local bookkeeping; the call to the provider is
  simulated in the source. \<open>stamp\<close> is the decimal text of \<^verbatim>\<open>Date.now()\<close>, \<open>secret\<close> the
  \<^verbatim>\<open>BINANCE_SECRET_KEY\<close> of the environment: when it is not set, \<^verbatim>\<open>crypto.createHmac\<close>
  throws while the request is signed, before the \<^verbatim>\<open>UPDATE\<close>.
\<close>

record payment_body =
  pay_order_id :: "nat option"
  pay_amount :: "rat option"

definition createPayment :: "string option \<Rightarrow> string \<Rightarrow> nat \<Rightarrow> db \<Rightarrow> token \<Rightarrow> payment_body \<Rightarrow> db \<times> response" where
  "createPayment secret stamp now d tok body =
     authenticated d tok (\<lambda>user.
       if \<not> truthy_nat (pay_order_id body) \<or> \<not> truthy_num (pay_amount body) then (d, Status 400)
       else
         (case pay_order_id body of
            None \<Rightarrow> (d, Status 400)
          | Some order_id \<Rightarrow>
              (case getOne (filter (\<lambda>r. o_id r = order_id \<and> o_buyer_id r = u_id user) (orders d)) of
                 None \<Rightarrow> (d, Status 404)
               | Some order \<Rightarrow>
                   if secret = None then (d, Status 500)
                   else
                     (d\<lparr>orders := map (\<lambda>r. if o_id r = order_id
                                             then r\<lparr>o_binance_txid := Some (''SIMULATED_'' @ stamp),
                                                    o_updated_at := now\<rparr>
                                             else r) (orders d)\<rparr>, Status 200))))"

text \<open>
  The webhook request: the three provider headers, and the result of
  \<^verbatim>\<open>JSON.parse(req.body.toString())\<close>, \<open>None\<close> when it throws. What \<^verbatim>\<open>req.body\<close> holds
  is decided by the body parsers mounted in front of the handler; the handler is
  modelled from the parsed payload on.
\<close>

record webhook_data =
  merchantTradeNo :: "string option"

record webhook_payload =
  bizStatus :: "string option"
  data :: "webhook_data option"

record webhook_req =
  signature :: "string option"
  timestamp :: "string option"
  nonce :: "string option"
  payload :: "webhook_payload option"

text \<open>\<^verbatim>\<open>String.prototype.split\<close> with a one-character separator.\<close>

fun split :: "char \<Rightarrow> string \<Rightarrow> string list" where
  "split c [] = [[]]"
| "split c (x # xs) =
     (if x = c then [] # split c xs
      else (case split c xs of [] \<Rightarrow> [[x]] | w # ws \<Rightarrow> (x # w) # ws))"

definition index :: "'a list \<Rightarrow> nat \<Rightarrow> 'a option" where
  "index xs i = (if i < length xs then Some (xs ! i) else None)"

text \<open>
  The order id reaches \<^verbatim>\<open>WHERE id = ?\<close> as text, and SQLite converts text that is
  a number before comparing it with an integer column. The model converts a non-empty
  string of decimal digits; any other text selects no row here (signs, blanks and
  decimal points, which SQLite also accepts, are not modelled).
\<close>

definition digit :: "char \<Rightarrow> nat option" where
  "digit c = (let n = (of_char c :: nat) in if 48 \<le> n \<and> n \<le> 57 then Some (n - 48) else None)"

fun digits :: "string \<Rightarrow> nat \<Rightarrow> nat option" where
  "digits [] acc = Some acc"
| "digits (c # cs) acc = (case digit c of None \<Rightarrow> None | Some k \<Rightarrow> digits cs (10 * acc + k))"

definition id_of_text :: "string \<Rightarrow> nat option" where
  "id_of_text s = (if s = [] then None else digits s 0)"

text \<open>
  The second statement of the webhook,
  \<^verbatim>\<open>UPDATE transactions SET status = 'verified', updated_at = CURRENT_TIMESTAMP WHERE order_id = ?\<close>.
  \<open>verify_transactions\<close> is what its \<^verbatim>\<open>SET status\<close> does to the rows it selects;
  \<open>update_transactions\<close> is the statement as a store whose table \<^verbatim>\<open>transactions\<close> has
  the given columns runs it: it names the column \<^verbatim>\<open>updated_at\<close>, so it is prepared only if
  the table has that column, and throws (\<open>None\<close>) otherwise.
\<close>

definition verify_transactions :: "nat option \<Rightarrow> transaction_row list \<Rightarrow> transaction_row list" where
  "verify_transactions orderId ts =
     map (\<lambda>t. if Some (t_order_id t) = orderId then t\<lparr>t_status := ''verified''\<rparr> else t) ts"

definition update_transactions :: "string list \<Rightarrow> nat option \<Rightarrow> transaction_row list \<Rightarrow> transaction_row list option" where
  "update_transactions columns orderId ts =
     (if ''updated_at'' \<in> set columns then Some (verify_transactions orderId ts) else None)"

text \<open>
  \<^verbatim>\<open>POST /payments/webhook\<close>, on a store whose table \<^verbatim>\<open>transactions\<close> has the given
  columns. The signature check is commented out in the source: the three headers are
  read and never used. Every exception ends in the \<^verbatim>\<open>catch\<close>, status
  500, with the statements that ran before it saved.
\<close>

definition webhook_on :: "string list \<Rightarrow> nat \<Rightarrow> db \<Rightarrow> webhook_req \<Rightarrow> db \<times> response" where
  "webhook_on columns now d req =
     (case payload req of
        None \<Rightarrow> (d, Status 500)
      | Some pl \<Rightarrow>
          if bizStatus pl = Some ''PAY_SUCCESS'' then
            (case data pl of
               None \<Rightarrow> (d, Status 500)
             | Some dt \<Rightarrow>
                 (case merchantTradeNo dt of
                    None \<Rightarrow> (d, Status 500)
                  | Some tradeNo \<Rightarrow>
                      (case index (split CHR ''_'' tradeNo) 1 of
                         None \<Rightarrow> (d, Status 500)
                       | Some orderId \<Rightarrow>
                           (let d1 = d\<lparr>orders := map (\<lambda>r. if Some (o_id r) = id_of_text orderId
                                                            then r\<lparr>o_status := ''processing'',
                                                                   o_updated_at := now\<rparr>
                                                            else r) (orders d)\<rparr>
                            in case update_transactions columns (id_of_text orderId) (transactions d1) of
                                 None \<Rightarrow> (d1, Status 500)
                               | Some ts \<Rightarrow> (d1\<lparr>transactions := ts\<rparr>, Status 200)))))
          else (d, Status 200))"

text \<open>The handler on the store of \<^verbatim>\<open>schema.sql\<close>.\<close>

definition webhook :: "nat \<Rightarrow> db \<Rightarrow> webhook_req \<Rightarrow> db \<times> response" where
  "webhook now d req = webhook_on transactions_columns now d req"

text \<open>
  \<^verbatim>\<open>GET /payments/:order_id/status\<close>: the latest transaction of an order
  (\<^verbatim>\<open>ORDER BY created_at DESC LIMIT 1\<close>).
\<close>

definition paymentStatus :: "db \<Rightarrow> token \<Rightarrow> nat \<Rightarrow> nat + transaction_row" where
  "paymentStatus d tok order_id =
     (case authenticateToken d tok of
        Inl s \<Rightarrow> Inl s
      | Inr user \<Rightarrow>
          (case getOne (sort_key (\<lambda>t. - int (t_created_at t))
                          (filter (\<lambda>t. t_order_id t = order_id) (transactions d))) of
             None \<Rightarrow> Inl 404
           | Some t \<Rightarrow> Inr t))"

section \<open>Accounts and earnings (\<^verbatim>\<open>routes/auth.js\<close>, \<^verbatim>\<open>src/routes/admin.js\<close>)\<close>

text \<open>
  \<^verbatim>\<open>bcrypt.hash\<close> is a collaborator outside the code and a parameter \<open>hash\<close> of the
  handlers that call it. The three handlers that call it await it, and other requests
  can be handled during the wait; every other handler that writes to the store runs from
  its first statement to its last with nothing in between. A handler that awaits is
  therefore two steps: what it does before the wait, and what it does after, on the
  store as it is then. (\<^verbatim>\<open>POST /auth/login\<close>, which awaits \<^verbatim>\<open>bcrypt.compare\<close>, writes
  nothing.)
\<close>

record account_body =
  email :: "string option"
  password :: "string option"
  binance_wallet :: "string option"

record seller_body = account_body +
  is_active :: "bool option"

definition insert_user :: "nat \<Rightarrow> string \<Rightarrow> string \<Rightarrow> string \<Rightarrow> string option \<Rightarrow> db \<Rightarrow> db" where
  "insert_user now mail hashedPassword role wallet d =
     d\<lparr>users := users d @
          [\<lparr>u_id = Suc (seq_users d), u_email = mail, u_password = hashedPassword,
            u_role = role, u_binance_wallet = wallet, u_earnings = 0,
            u_created_at = now, u_updated_at = now, u_is_active = True\<rparr>],
       seq_users := Suc (seq_users d)\<rparr>"

text \<open>
  \<^verbatim>\<open>POST /auth/register\<close> and \<^verbatim>\<open>POST /admin/sellers\<close> before the wait: the two required
  fields and the address not yet registered, else 400.
\<close>

definition account_check :: "db \<Rightarrow> account_body \<Rightarrow> response + (string \<times> string)" where
  "account_check d body =
     (case (email body, password body) of
        (Some mail, Some pw) \<Rightarrow>
          if mail = [] \<or> pw = [] then Inl (Status 400)
          else if filter (\<lambda>u. u_email u = mail) (users d) \<noteq> [] then Inl (Status 400)
          else Inr (mail, pw)
      | _ \<Rightarrow> Inl (Status 400))"

text \<open>
  After the wait: the \<^verbatim>\<open>INSERT\<close>, which throws on the \<^verbatim>\<open>UNIQUE\<close> address when a request
  handled during the wait has registered it (the \<^verbatim>\<open>catch\<close> answers 500). The token that
  \<^verbatim>\<open>POST /auth/register\<close> signs afterwards is not part of the store; the environment sets
  the \<^verbatim>\<open>JWT_SECRET\<close> it is signed with.
\<close>

definition insert_account :: "(string \<Rightarrow> string) \<Rightarrow> nat \<Rightarrow> string \<Rightarrow> string \<Rightarrow> string \<Rightarrow> string option \<Rightarrow> db \<Rightarrow> db \<times> response" where
  "insert_account hash now role mail pw wallet d =
     (if filter (\<lambda>u. u_email u = mail) (users d) \<noteq> [] then (d, Status 500)
      else (let d1 = insert_user now mail (hash pw) role wallet d in (d1, Created (seq_users d1))))"

text \<open>The two handlers when nothing is handled during their wait.\<close>

definition register :: "(string \<Rightarrow> string) \<Rightarrow> nat \<Rightarrow> db \<Rightarrow> account_body \<Rightarrow> db \<times> response" where
  "register hash now d body =
     (case account_check d body of
        Inl refusal \<Rightarrow> (d, refusal)
      | Inr (mail, pw) \<Rightarrow>
          insert_account hash now ''buyer'' mail pw (or_str (binance_wallet body) None) d)"

definition createSeller :: "(string \<Rightarrow> string) \<Rightarrow> nat \<Rightarrow> db \<Rightarrow> token \<Rightarrow> account_body \<Rightarrow> db \<times> response" where
  "createSeller hash now d tok body =
     requireRole d tok [''superuser''] (\<lambda>user.
       case account_check d body of
         Inl refusal \<Rightarrow> (d, refusal)
       | Inr (mail, pw) \<Rightarrow>
           insert_account hash now ''seller'' mail pw (or_str (binance_wallet body) None) d)"

text \<open>\<^verbatim>\<open>SELECT * FROM users WHERE id = ? AND role = 'seller'\<close>, through \<^verbatim>\<open>getOne\<close>.\<close>

definition find_seller :: "db \<Rightarrow> nat \<Rightarrow> user_row option" where
  "find_seller d sellerId = getOne (filter (\<lambda>u. u_id u = sellerId \<and> u_role u = ''seller'') (users d))"

text \<open>
  \<^verbatim>\<open>PUT /admin/sellers/:id\<close> up to its \<^verbatim>\<open>UPDATE\<close>: the guard, and the seller row it reads.
\<close>

definition updateSeller_read :: "db \<Rightarrow> token \<Rightarrow> nat \<Rightarrow> response + user_row" where
  "updateSeller_read d tok sellerId =
     (case authenticateToken d tok of
        Inl s \<Rightarrow> Inl (Status s)
      | Inr user \<Rightarrow>
          if u_role user \<in> set [''superuser''] then
            (case find_seller d sellerId of
               None \<Rightarrow> Inl (Status 404)
             | Some seller \<Rightarrow> Inr seller)
          else Inl (Status 403))"

text \<open>
  Its \<^verbatim>\<open>UPDATE\<close>, which writes \<^verbatim>\<open>email || seller.email\<close> and so on from the row \<open>seller\<close>
  read before. \<^verbatim>\<open>users.email\<close> is \<^verbatim>\<open>UNIQUE\<close>: the statement throws, and changes nothing,
  when another row already has the new address. With a password in the body the handler
  awaits the hash between the read and this statement; without one it does not wait.
\<close>

definition email_taken :: "db \<Rightarrow> nat \<Rightarrow> string \<Rightarrow> bool" where
  "email_taken d sellerId mail = (\<exists>u \<in> set (users d). u_id u \<noteq> sellerId \<and> u_email u = mail)"

definition or_default :: "string option \<Rightarrow> string \<Rightarrow> string" where
  "or_default v dflt = (case v of None \<Rightarrow> dflt | Some s \<Rightarrow> if s = [] then dflt else s)"

definition updateSeller_write :: "(string \<Rightarrow> string) \<Rightarrow> nat \<Rightarrow> db \<Rightarrow> nat \<Rightarrow> seller_body \<Rightarrow> user_row \<Rightarrow> db \<times> response" where
  "updateSeller_write hash now d sellerId body seller =
     (let new_email = or_default (email body) (u_email seller);
          new_wallet = or_str (binance_wallet body) (u_binance_wallet seller);
          new_active = (case is_active body of None \<Rightarrow> u_is_active seller | Some b \<Rightarrow> b)
      in if email_taken d sellerId new_email
         then (d, Status 500)
         else if truthy_str (password body)
         then (d\<lparr>users := map (\<lambda>u. if u_id u = sellerId
                                    then u\<lparr>u_email := new_email, u_binance_wallet := new_wallet,
                                           u_is_active := new_active,
                                           u_password := hash (or_default (password body) []),
                                           u_updated_at := now\<rparr>
                                    else u) (users d)\<rparr>, Status 200)
         else (d\<lparr>users := map (\<lambda>u. if u_id u = sellerId
                                    then u\<lparr>u_email := new_email, u_binance_wallet := new_wallet,
                                           u_is_active := new_active, u_updated_at := now\<rparr>
                                    else u) (users d)\<rparr>, Status 200))"

text \<open>The handler when nothing is handled during its wait.\<close>

definition updateSeller :: "(string \<Rightarrow> string) \<Rightarrow> nat \<Rightarrow> db \<Rightarrow> token \<Rightarrow> nat \<Rightarrow> seller_body \<Rightarrow> db \<times> response" where
  "updateSeller hash now d tok sellerId body =
     (case updateSeller_read d tok sellerId of
        Inl refusal \<Rightarrow> (d, refusal)
      | Inr seller \<Rightarrow> updateSeller_write hash now d sellerId body seller)"

definition deactivateSeller :: "db \<Rightarrow> token \<Rightarrow> nat \<Rightarrow> db \<times> response" where
  "deactivateSeller d tok sellerId =
     requireRole d tok [''superuser''] (\<lambda>user.
       (d\<lparr>users := map (\<lambda>u. if u_id u = sellerId \<and> u_role u = ''seller''
                             then u\<lparr>u_is_active := False\<rparr> else u) (users d)\<rparr>, Status 200))"

text \<open>
  \<^verbatim>\<open>PUT /admin/sellers/:id/earnings\<close>. The amount is a JSON number; \<^verbatim>\<open>!amount\<close> refuses
  an absent amount and zero, \<^verbatim>\<open>!operation\<close> an absent or empty operation.
  \<^verbatim>\<open>seller.earnings + amount\<close> is an addition of doubles.
\<close>

record earnings_body =
  amount :: "rat option"
  operation :: "string option"

definition updateEarnings :: "nat \<Rightarrow> db \<Rightarrow> token \<Rightarrow> nat \<Rightarrow> earnings_body \<Rightarrow> db \<times> response" where
  "updateEarnings now d tok sellerId body =
     requireRole d tok [''superuser''] (\<lambda>user.
       case (amount body, operation body) of
         (Some amt, Some opr) \<Rightarrow>
           if dbl amt = 0 \<or> opr = [] then (d, Status 400)
           else
             (case find_seller d sellerId of
                None \<Rightarrow> (d, Status 404)
              | Some seller \<Rightarrow>
                  if opr = ''add'' \<or> opr = ''set'' then
                    (let newEarnings = (if opr = ''add'' then dadd (u_earnings seller) (dbl amt)
                                        else dbl amt)
                     in (d\<lparr>users := map (\<lambda>u. if u_id u = sellerId
                                                then u\<lparr>u_earnings := newEarnings, u_updated_at := now\<rparr>
                                                else u) (users d)\<rparr>, NewEarnings newEarnings))
                  else (d, Status 400))
       | _ \<Rightarrow> (d, Status 400))"

text \<open>
  \<^verbatim>\<open>POST /admin/sellers/:id/sales\<close>; \<^verbatim>\<open>earnings = earnings + ?\<close> is SQLite's addition of
  doubles.
\<close>

record sale_body =
  sale_order_id :: "nat option"
  sale_amount :: "rat option"

definition assignSale :: "nat \<Rightarrow> db \<Rightarrow> token \<Rightarrow> nat \<Rightarrow> sale_body \<Rightarrow> db \<times> response" where
  "assignSale now d tok sellerId body =
     requireRole d tok [''superuser''] (\<lambda>user.
       case (sale_order_id body, sale_amount body) of
         (Some order_id, Some amt) \<Rightarrow>
           if order_id = 0 \<or> dbl amt = 0 then (d, Status 400)
           else
             (case find_seller d sellerId of
                None \<Rightarrow> (d, Status 404)
              | Some seller \<Rightarrow>
                  (d\<lparr>seller_earnings := seller_earnings d @
                        [\<lparr>se_id = Suc (seq_seller_earnings d), se_seller_id = sellerId,
                          se_order_id = order_id, se_amount = dbl amt, se_created_at = now\<rparr>],
                     seq_seller_earnings := Suc (seq_seller_earnings d),
                     users := map (\<lambda>u. if u_id u = sellerId
                                        then u\<lparr>u_earnings := dadd (u_earnings u) (dbl amt),
                                               u_updated_at := now\<rparr>
                                        else u) (users d)\<rparr>, Status 200))
       | _ \<Rightarrow> (d, Status 400))"

section \<open>Catalog (\<^verbatim>\<open>src/routes/products.js\<close>)\<close>

record product_body =
  name :: "string option"
  description :: "string option"
  price :: "rat option"
  stock :: "int option"
  category_id :: "nat option"
  image_url :: "string option"
  active :: "bool option"

text \<open>
  \<^verbatim>\<open>GET /products\<close>: the active products joined with their category, newest first.
\<close>

definition listProducts :: "db \<Rightarrow> nat option \<Rightarrow> (product_row \<times> string) list" where
  "listProducts d category =
     sort_key (\<lambda>(p, category_name). - int (p_created_at p))
       (concat (map (\<lambda>p. map (\<lambda>c. (p, c_name c))
                              (filter (\<lambda>c. p_category_id p = c_id c \<and> p_is_active p \<and>
                                           (case category of None \<Rightarrow> True | Some k \<Rightarrow> c_id c = k))
                                      (categories d)))
                    (products d)))"

definition getProduct :: "db \<Rightarrow> nat \<Rightarrow> nat + (product_row \<times> string)" where
  "getProduct d pid =
     (case getOne (concat (map (\<lambda>p. map (\<lambda>c. (p, c_name c))
                                        (filter (\<lambda>c. p_category_id p = c_id c \<and> p_id p = pid \<and> p_is_active p)
                                                (categories d)))
                              (products d))) of
        None \<Rightarrow> Inl 404
      | Some row \<Rightarrow> Inr row)"

text \<open>
  \<^verbatim>\<open>POST /products\<close> and \<^verbatim>\<open>PUT /products/:id\<close> bind the body fields as they come; an
  absent one is \<^verbatim>\<open>undefined\<close>, which the binding refuses by throwing.
\<close>

definition createProduct :: "nat \<Rightarrow> db \<Rightarrow> token \<Rightarrow> product_body \<Rightarrow> db \<times> response" where
  "createProduct now d tok body =
     requireRole d tok [''superuser''] (\<lambda>user.
       if \<not> truthy_str (name body) \<or> \<not> truthy_num (price body) \<or> \<not> truthy_nat (category_id body)
       then (d, Status 400)
       else
         (case (name body, description body, price body, category_id body, image_url body) of
            (Some nm, Some ds, Some pr, Some cat, Some img) \<Rightarrow>
              (d\<lparr>products := products d @
                    [\<lparr>p_id = Suc (seq_products d), p_name = nm, p_description = Some ds,
                      p_price = dbl pr, p_stock = (case stock body of None \<Rightarrow> 0 | Some k \<Rightarrow> k),
                      p_category_id = cat, p_image_url = Some img, p_is_active = True,
                      p_created_at = now, p_updated_at = now\<rparr>],
                 seq_products := Suc (seq_products d)\<rparr>, Created (Suc (seq_products d)))
          | _ \<Rightarrow> (d, Status 500)))"

definition updateProduct :: "nat \<Rightarrow> db \<Rightarrow> token \<Rightarrow> nat \<Rightarrow> product_body \<Rightarrow> db \<times> response" where
  "updateProduct now d tok pid body =
     requireRole d tok [''superuser''] (\<lambda>user.
       case (name body, description body, price body, stock body, category_id body, image_url body) of
         (Some nm, Some ds, Some pr, Some st, Some cat, Some img) \<Rightarrow>
           (d\<lparr>products := map (\<lambda>p. if p_id p = pid
                                    then p\<lparr>p_name := nm, p_description := Some ds, p_price := dbl pr,
                                           p_stock := st, p_category_id := cat, p_image_url := Some img,
                                           p_is_active := (case active body of None \<Rightarrow> False | Some b \<Rightarrow> b),
                                           p_updated_at := now\<rparr>
                                    else p) (products d)\<rparr>, Status 200)
       | _ \<Rightarrow> (d, Status 500))"

definition deleteProduct :: "db \<Rightarrow> token \<Rightarrow> nat \<Rightarrow> db \<times> response" where
  "deleteProduct d tok pid =
     requireRole d tok [''superuser''] (\<lambda>user.
       (d\<lparr>products := map (\<lambda>p. if p_id p = pid then p\<lparr>p_is_active := False\<rparr> else p)
                            (products d)\<rparr>, Status 200))"

section \<open>The requests that write to the store\<close>

text \<open>
  One step of the server: a handler that does not wait, from its first statement to
  its last; a handler that waits with nothing handled during its wait (\<open>Register\<close>,
  \<open>CreateSeller\<close>, \<open>UpdateSeller\<close>); or the second half of such a handler, resumed after
  other steps with what it had read (\<open>InsertAccount\<close> with the role, address, password
  and wallet, \<open>WriteSeller\<close> with the seller row).
\<close>

datatype request =
    Register account_body
  | CreateSeller token account_body
  | InsertAccount string string string "string option"
  | UpdateSeller token nat seller_body
  | WriteSeller nat seller_body user_row
  | DeactivateSeller token nat
  | UpdateEarnings token nat earnings_body
  | AssignSale token nat sale_body
  | CreateProduct token product_body
  | UpdateProduct token nat product_body
  | DeleteProduct token nat
  | CreateOrder token order_body
  | UpdateStatus token nat status_body
  | PaymentProof token nat proof_body
  | CreatePayment "string option" string token payment_body
  | Webhook webhook_req

fun handle :: "(string \<Rightarrow> string) \<Rightarrow> db \<Rightarrow> nat \<times> request \<Rightarrow> db \<times> response" where
  "handle hash d (now, Register body) = register hash now d body"
| "handle hash d (now, CreateSeller tok body) = createSeller hash now d tok body"
| "handle hash d (now, InsertAccount role mail pw wallet) = insert_account hash now role mail pw wallet d"
| "handle hash d (now, UpdateSeller tok sellerId body) = updateSeller hash now d tok sellerId body"
| "handle hash d (now, WriteSeller sellerId body seller) = updateSeller_write hash now d sellerId body seller"
| "handle hash d (now, DeactivateSeller tok sellerId) = deactivateSeller d tok sellerId"
| "handle hash d (now, UpdateEarnings tok sellerId body) = updateEarnings now d tok sellerId body"
| "handle hash d (now, AssignSale tok sellerId body) = assignSale now d tok sellerId body"
| "handle hash d (now, CreateProduct tok body) = createProduct now d tok body"
| "handle hash d (now, UpdateProduct tok pid body) = updateProduct now d tok pid body"
| "handle hash d (now, DeleteProduct tok pid) = deleteProduct d tok pid"
| "handle hash d (now, CreateOrder tok body) = createOrder now d tok body"
| "handle hash d (now, UpdateStatus tok orderId body) = updateStatus now d tok orderId body"
| "handle hash d (now, PaymentProof tok orderId body) = paymentProof now d tok orderId body"
| "handle hash d (now, CreatePayment secret stamp tok body) = createPayment secret stamp now d tok body"
| "handle hash d (now, Webhook req) = webhook now d req"

text \<open>The store after a sequence of steps.\<close>

fun run :: "(string \<Rightarrow> string) \<Rightarrow> db \<Rightarrow> (nat \<times> request) list \<Rightarrow> db" where
  "run hash d [] = d"
| "run hash d (rq # rqs) = run hash (fst (handle hash d rq)) rqs"

text \<open>
  \<^verbatim>\<open>PUT /admin/sellers/:id\<close> with the steps \<open>between\<close> handled during its wait. The handler
  waits only when the body has a password.
\<close>

definition updateSeller_overlapped :: "(string \<Rightarrow> string) \<Rightarrow> nat \<Rightarrow> db \<Rightarrow> token \<Rightarrow> nat \<Rightarrow> seller_body \<Rightarrow> (nat \<times> request) list \<Rightarrow> db \<times> response" where
  "updateSeller_overlapped hash now d tok sellerId body between =
     (case updateSeller_read d tok sellerId of
        Inl refusal \<Rightarrow> (d, refusal)
      | Inr seller \<Rightarrow>
          updateSeller_write hash now
            (if truthy_str (password body) then run hash d between else d) sellerId body seller)"

section \<open>Derived notions used by the properties\<close>

text \<open>The status and the seller of the order with a given id, as \<^verbatim>\<open>getOne\<close> reads them.\<close>

definition order_status :: "db \<Rightarrow> nat \<Rightarrow> string option" where
  "order_status d orderId = map_option o_status (getOne (filter (\<lambda>r. o_id r = orderId) (orders d)))"

definition order_seller :: "db \<Rightarrow> nat \<Rightarrow> nat option" where
  "order_seller d orderId =
     (case getOne (filter (\<lambda>r. o_id r = orderId) (orders d)) of None \<Rightarrow> None | Some r \<Rightarrow> o_seller_id r)"

definition earnings_of :: "db \<Rightarrow> nat \<Rightarrow> rat option" where
  "earnings_of d userId = map_option u_earnings (getOne (filter (\<lambda>u. u_id u = userId) (users d)))"

text \<open>Two order rows that agree on every column but the three a payment proof writes.\<close>

definition same_but_proof :: "order_row \<Rightarrow> order_row \<Rightarrow> bool" where
  "same_but_proof r r' =
     (r'\<lparr>o_payment_proof := o_payment_proof r, o_binance_txid := o_binance_txid r,
         o_updated_at := o_updated_at r\<rparr> = r)"

text \<open>
  The total of order items as \<^verbatim>\<open>POST /orders\<close> accumulates it: from 0, line after line,
  every product and every sum rounded to a double.
\<close>

definition double_sum :: "order_item_row list \<Rightarrow> rat" where
  "double_sum ois =
     foldl (\<lambda>tot oi. dadd tot (dmul (oi_price oi) (of_int (oi_quantity oi)))) 0 ois"

text \<open>The order items of an order, in the order of the table.\<close>

definition order_lines :: "db \<Rightarrow> nat \<Rightarrow> order_item_row list" where
  "order_lines d orderId = filter (\<lambda>oi. oi_order_id oi = orderId) (order_items d)"

text \<open>
  The sum over the order items of an order of quantity times captured price, in the
  arithmetic of decimals, where nothing is rounded.
\<close>

definition line_sum :: "order_item_row list \<Rightarrow> rat" where
  "line_sum ois = sum_list (map (\<lambda>oi. of_int (oi_quantity oi) * oi_price oi) ois)"

definition exact_total :: "db \<Rightarrow> nat \<Rightarrow> rat" where
  "exact_total d orderId = line_sum (order_lines d orderId)"

definition order_keys :: "db \<Rightarrow> (nat \<times> rat) list" where
  "order_keys d = map (\<lambda>r. (o_id r, o_total_amount r)) (orders d)"

text \<open>
  The part of the store that order totals depend on: the id and total of every order,
  the order items, the product ids, and the two counters that hand out order and
  product ids.
\<close>

definition ledger :: "db \<Rightarrow> (nat \<times> rat) list \<times> order_item_row list \<times> nat \<times> nat list \<times> nat" where
  "ledger d = (order_keys d, order_items d, seq_orders d, map p_id (products d), seq_products d)"

text \<open>
  A store as the seeding of \<^verbatim>\<open>db.js\<close> leaves it: users, categories and products, but no
  order yet; product ids are a primary key handed out by \<^verbatim>\<open>AUTOINCREMENT\<close>.
\<close>

definition fresh_store :: "db \<Rightarrow> bool" where
  "fresh_store d =
     (orders d = [] \<and> order_items d = [] \<and> distinct (map p_id (products d)) \<and>
      list_all (\<lambda>p. p_id p \<le> seq_products d) (products d))"

text \<open>
  What every step keeps true of a store: product ids stay a primary key below their
  counter, and order ids and the order ids of order items stay below the counter of
  \<^verbatim>\<open>orders\<close>.
\<close>

definition consistent :: "db \<Rightarrow> bool" where
  "consistent d =
     (distinct (map p_id (products d)) \<and>
      list_all (\<lambda>p. p_id p \<le> seq_products d) (products d) \<and>
      list_all (\<lambda>(i, t). i \<le> seq_orders d) (order_keys d) \<and>
      list_all (\<lambda>oi. oi_order_id oi \<le> seq_orders d) (order_items d))"

text \<open>Every user's earnings are at least 0.\<close>

definition earnings_nonneg :: "db \<Rightarrow> bool" where
  "earnings_nonneg d = list_all (\<lambda>u. 0 \<le> u_earnings u) (users d)"

text \<open>
  A step that carries no negative amount: the amount of \<^verbatim>\<open>PUT /admin/sellers/:id/earnings\<close>
  and of \<^verbatim>\<open>POST /admin/sellers/:id/sales\<close>, when the body has one, is at least 0. Every
  other step qualifies.
\<close>

fun no_negative_amount :: "nat \<times> request \<Rightarrow> bool" where
  "no_negative_amount (now, UpdateEarnings tok sellerId body) =
     (case amount body of None \<Rightarrow> True | Some amt \<Rightarrow> 0 \<le> amt)"
| "no_negative_amount (now, AssignSale tok sellerId body) =
     (case sale_amount body of None \<Rightarrow> True | Some amt \<Rightarrow> 0 \<le> amt)"
| "no_negative_amount (now, other) = True"


section \<open>An example store\<close>

definition shop_users :: "user_row list" where
  "shop_users =
     [\<lparr>u_id = 1, u_email = ''admin@cashout.com'', u_password = ''h1'', u_role = ''superuser'',
       u_binance_wallet = None, u_earnings = 0, u_created_at = 0, u_updated_at = 0, u_is_active = True\<rparr>,
      \<lparr>u_id = 2, u_email = ''buyer@x.org'', u_password = ''h2'', u_role = ''buyer'',
       u_binance_wallet = None, u_earnings = 0, u_created_at = 1, u_updated_at = 1, u_is_active = True\<rparr>,
      \<lparr>u_id = 3, u_email = ''a@x.org'', u_password = ''h3'', u_role = ''seller'',
       u_binance_wallet = Some ''W3'', u_earnings = 10, u_created_at = 2, u_updated_at = 2, u_is_active = True\<rparr>,
      \<lparr>u_id = 4, u_email = ''b@x.org'', u_password = ''h4'', u_role = ''seller'',
       u_binance_wallet = None, u_earnings = 0, u_created_at = 3, u_updated_at = 3, u_is_active = True\<rparr>]"

definition shop0 :: db where
  "shop0 =
     \<lparr>users = shop_users,
      categories = [\<lparr>c_id = 1, c_name = ''Gift Cards'', c_description = None\<rparr>],
      products =
        [\<lparr>p_id = 1, p_name = ''Steam Gift Card'', p_description = None, p_price = 10, p_stock = 3,
          p_category_id = 1, p_image_url = None, p_is_active = True, p_created_at = 0,
          p_updated_at = 0\<rparr>],
      orders = [], order_items = [], transactions = [], seller_earnings = [],
      seq_users = 4, seq_products = 1, seq_orders = 0, seq_order_items = 0,
      seq_transactions = 0, seq_seller_earnings = 0\<rparr>"

text \<open>
  The same store later: order 1 is pending and unclaimed, with two payment proofs
  submitted; order 2 was completed by seller 3.
\<close>

definition shop :: db where
  "shop =
     shop0\<lparr>orders :=
        [\<lparr>o_id = 1, o_buyer_id = 2, o_seller_id = None, o_status = ''pending'',
          o_total_amount = 20, o_contact_name = Some ''Ana'', o_contact_email = Some ''buyer@x.org'',
          o_contact_phone = None, o_contact_info = None, o_payment_proof = Some ''proof-b'',
          o_binance_txid = Some ''tx-b'', o_created_at = 4, o_updated_at = 7\<rparr>,
         \<lparr>o_id = 2, o_buyer_id = 2, o_seller_id = Some 3, o_status = ''completed'',
          o_total_amount = 10, o_contact_name = Some ''Ana'', o_contact_email = Some ''buyer@x.org'',
          o_contact_phone = None, o_contact_info = None, o_payment_proof = None,
          o_binance_txid = None, o_created_at = 6, o_updated_at = 8\<rparr>],
      order_items :=
        [\<lparr>oi_id = 1, oi_order_id = 1, oi_product_id = 1, oi_quantity = 2, oi_price = 10\<rparr>,
         \<lparr>oi_id = 2, oi_order_id = 2, oi_product_id = 1, oi_quantity = 1, oi_price = 10\<rparr>],
      transactions :=
        [\<lparr>t_id = 1, t_order_id = 1, t_user_id = 2, t_amount = 20, t_binance_txid = Some ''tx-a'',
          t_payment_proof_url = Some ''proof-a'', t_status = ''pending'', t_created_at = 5\<rparr>,
         \<lparr>t_id = 2, t_order_id = 1, t_user_id = 2, t_amount = 20, t_binance_txid = Some ''tx-b'',
          t_payment_proof_url = Some ''proof-b'', t_status = ''pending'', t_created_at = 7\<rparr>],
      seq_orders := 2, seq_order_items := 2, seq_transactions := 2\<rparr>"

definition two_lines :: order_body where
  "two_lines =
     \<lparr>items = [\<lparr>product_id = 1, quantity = Quantity 2\<rparr>, \<lparr>product_id = 1, quantity = Quantity 2\<rparr>],
      contact_name = Some ''Ana'', contact_email = Some ''buyer@x.org'',
      contact_phone = None, contact_info = None\<rparr>"

text \<open>
  Two sellers claim the same order: both send \<^verbatim>\<open>{status: 'processing'}\<close>, and the
  handler, which has no \<^verbatim>\<open>await\<close>, runs the first request to its end before the second.
\<close>

definition claim :: status_body where
  "claim = \<lparr>status = ''processing'', seller_id = None\<rparr>"

definition two_claims :: "nat \<Rightarrow> nat \<Rightarrow> db \<Rightarrow> nat \<Rightarrow> nat \<Rightarrow> nat \<Rightarrow> db \<times> response \<times> response" where
  "two_claims now1 now2 d sellerA sellerB orderId =
     (let (d1, r1) = updateStatus now1 d (ValidToken sellerA) orderId claim;
          (d2, r2) = updateStatus now2 d1 (ValidToken sellerB) orderId claim
      in (d2, r1, r2))"

definition one_line :: order_body where
  "one_line =
     \<lparr>items = [\<lparr>product_id = 1, quantity = Quantity 2\<rparr>],
      contact_name = Some ''Ana'', contact_email = Some ''buyer@x.org'',
      contact_phone = None, contact_info = None\<rparr>"

definition reprice :: product_body where
  "reprice =
     \<lparr>name = Some ''Steam Gift Card'', description = Some ''card'', price = Some 99,
      stock = Some 5, category_id = Some 1, image_url = Some ''/steam.png'', active = Some True\<rparr>"

definition pay_success :: "string option \<Rightarrow> string \<Rightarrow> webhook_req" where
  "pay_success sig tradeNo =
     \<lparr>signature = sig, timestamp = Some ''1700000000000'', nonce = Some ''n'',
      payload = Some \<lparr>bizStatus = Some ''PAY_SUCCESS'',
                      data = Some \<lparr>merchantTradeNo = Some tradeNo\<rparr>\<rparr>\<rparr>"

text \<open>
  A product priced 0.1, and an order of three of it. In \<open>shop0\<close> the product gets id 2.
\<close>

definition dime :: product_body where
  "dime =
     \<lparr>name = Some ''Sticker'', description = Some ''one sticker'', price = Some (1 / 10),
      stock = Some 5, category_id = Some 1, image_url = Some ''/sticker.png'', active = None\<rparr>"

definition three_dimes :: order_body where
  "three_dimes =
     \<lparr>items = [\<lparr>product_id = 2, quantity = Quantity 3\<rparr>],
      contact_name = Some ''Ana'', contact_email = Some ''buyer@x.org'',
      contact_phone = None, contact_info = None\<rparr>"

text \<open>An order of two lines, the first with the quantity \<^verbatim>\<open>null\<close>.\<close>

definition null_line :: order_body where
  "null_line =
     \<lparr>items = [\<lparr>product_id = 1, quantity = Null\<rparr>, \<lparr>product_id = 1, quantity = Quantity 2\<rparr>],
      contact_name = Some ''Ana'', contact_email = Some ''buyer@x.org'',
      contact_phone = None, contact_info = None\<rparr>"



section \<open>Reading rows back\<close>

lemma getOne_filter_map:
  assumes "\<And>x. P (f x) = P x"
  shows "getOne (filter P (map f xs)) = map_option f (getOne (filter P xs))"
  using assms by (induction xs) (auto simp: getOne_def)

lemma getOne_filter_Some:
  "getOne (filter P xs) = Some x \<Longrightarrow> P x \<and> x \<in> set xs"
  by (induction xs) (auto simp: getOne_def split: if_splits)

lemma authenticateToken_users:
  "users d' = users d \<Longrightarrow> authenticateToken d' tok = authenticateToken d tok"
  by (auto simp: authenticateToken_def split: token.splits)

lemma authenticateToken_ValidToken:
  "authenticateToken d (ValidToken a) = Inr u \<Longrightarrow> u_id u = a \<and> u_is_active u \<and> u \<in> set (users d)"
  by (auto simp: authenticateToken_def split: option.splits dest: getOne_filter_Some)

lemma updateStatus_accepted:
  assumes "authenticateToken d tok = Inr user"
    and "u_role user = ''seller'' \<or> u_role user = ''superuser''"
    and "status body \<in> set validStatuses"
    and "getOne (filter (\<lambda>r. o_id r = orderId) (orders d)) = Some order"
  shows "updateStatus now d tok orderId body =
    (d\<lparr>orders := map (\<lambda>r. if o_id r = orderId
                           then (if status body = ''processing'' \<and> \<not> truthy_nat (o_seller_id order)
                                 then r\<lparr>o_status := status body,
                                        o_seller_id := or_nat (seller_id body) (Some (u_id user)),
                                        o_updated_at := now\<rparr>
                                 else r\<lparr>o_status := status body, o_updated_at := now\<rparr>)
                           else r) (orders d)\<rparr>, Status 200)"
  using assms by (auto simp: updateStatus_def requireRole_def)

lemma requireRole_fst:
  assumes "Q d" and "\<And>user. Q (fst (k user))"
  shows "Q (fst (requireRole d tok roles k))"
  unfolding requireRole_def by (simp add: assms split: sum.splits)

lemma authenticated_fst:
  assumes "Q d" and "\<And>user. Q (fst (k user))"
  shows "Q (fst (authenticated d tok k))"
  unfolding authenticated_def by (simp add: assms split: sum.splits)

section \<open>Doubles\<close>

lemma pow2_pos: "0 < pow2 k"
  by (simp add: pow2_def)

lemma round_even_nonneg: "0 \<le> m \<Longrightarrow> 0 \<le> round_even m"
  by (auto simp: round_even_def Let_def)

lemma dbl_nonneg: "0 \<le> x \<Longrightarrow> 0 \<le> dbl x"
  by (auto simp: dbl_def Let_def pow2_pos round_even_nonneg less_imp_le intro!: mult_nonneg_nonneg)

lemma dadd_nonneg: "0 \<le> x \<Longrightarrow> 0 \<le> y \<Longrightarrow> 0 \<le> dadd x y"
  by (simp add: dadd_def dbl_nonneg)

text \<open>
  0.1 is no double; the nearest one is a little more, and three times it, rounded, is
  the double that prints as 0.30000000000000004.
\<close>

lemma dbl_tenth: "dbl (1 / 10) = 3602879701896397 / 36028797018963968"
  by code_simp

lemma three_tenths: "dmul (dbl (1 / 10)) 3 = 1351079888211149 / 4503599627370496"
  by code_simp

lemma three_tenths_not_exact:
  "dmul (dbl (1 / 10)) 3 \<noteq> 3 * dbl (1 / 10) \<and> dmul (dbl (1 / 10)) 3 \<noteq> dbl (3 / 10)"
  by code_simp

text \<open>Addition of doubles is not associative.\<close>

lemma dadd_not_associative:
  "dadd (dadd (dbl (1 / 10)) (dbl (2 / 10))) (dbl (3 / 10))
     \<noteq> dadd (dbl (1 / 10)) (dadd (dbl (2 / 10)) (dbl (3 / 10)))"
  by code_simp

section \<open>Order creation and stock\<close>

text \<open>
  C1. The claim: no successful \<^verbatim>\<open>POST /orders\<close> drives a stock below zero, also when the
  item list names a product more than once. On the code this fails: the first loop
  compares every line with the stock in the store, which no line has yet decremented.
  With stock 3, two lines of quantity 2 for product 1 both pass; the order is created
  (201, total 40) and the stock is left at -1.
\<close>

theorem createOrder_same_product_twice_oversells:
  "map p_stock (products shop0) = [3] \<and>
   snd (createOrder 100 shop0 (ValidToken 2) two_lines) = OrderCreated 1 40 \<and>
   map p_stock (products (fst (createOrder 100 shop0 (ValidToken 2) two_lines))) = [- 1]"
  by code_simp

section \<open>The payment webhook\<close>

text \<open>
  C5. The claim: on \<^verbatim>\<open>PAY_SUCCESS\<close> with a well-formed \<^verbatim>\<open>merchantTradeNo\<close> the order becomes
  \<^verbatim>\<open>processing\<close> and exactly its latest transaction \<^verbatim>\<open>verified\<close>. On the code the order
  is updated, and then the statement on \<^verbatim>\<open>transactions\<close> throws, since it sets a column
  \<^verbatim>\<open>updated_at\<close> that the table does not have: the answer is 500 and no transaction of
  order 1 is verified.
\<close>

theorem webhook_pay_success_verifies_nothing:
  "snd (webhook 9 shop (pay_success None ''ORDER_1_1700000000000'')) = Status 500 \<and>
   order_status (fst (webhook 9 shop (pay_success None ''ORDER_1_1700000000000''))) 1 = Some ''processing'' \<and>
   map t_status (transactions (fst (webhook 9 shop (pay_success None ''ORDER_1_1700000000000''))))
     = [''pending'', ''pending'']"
  by code_simp

text \<open>
  Were the column there, the statement would still not do what the claim says: it has
  no \<^verbatim>\<open>ORDER BY ... LIMIT 1\<close>, so both transactions of order 1 become \<^verbatim>\<open>verified\<close>, not
  only the latest (the one with id 2); and a reference whose second field is no order
  id is answered 200 with nothing changed.
\<close>

lemma webhook_with_column_verifies_all:
  "map_option t_id (getOne (sort_key (\<lambda>t. - int (t_created_at t))
       (filter (\<lambda>t. t_order_id t = 1) (transactions shop)))) = Some 2 \<and>
   webhook_on (''updated_at'' # transactions_columns) 9 shop (pay_success None ''ORDER_1_1700000000000'')
     = (shop\<lparr>orders := orders (fst (webhook 9 shop (pay_success None ''ORDER_1_1700000000000''))),
             transactions := map (\<lambda>t. t\<lparr>t_status := ''verified''\<rparr>) (transactions shop)\<rparr>, Status 200)"
  by code_simp

lemma webhook_with_column_malformed_reference:
  "webhook_on (''updated_at'' # transactions_columns) 9 shop (pay_success None ''ORDER_abc_1'')
     = (shop, Status 200)"
  by code_simp

text \<open>
  C6. The claim: a request whose signature header does not match the recomputed
  HMAC-SHA512 is answered 401 and changes nothing. On the code no header is compared
  with anything: the request below carries the signature \<^verbatim>\<open>BAD\<close>, which is no
  HMAC-SHA512 digest (those have 128 hexadecimal digits), and it moves order 1 from
  \<^verbatim>\<open>pending\<close> to \<^verbatim>\<open>processing\<close>; the answer is not 401.
\<close>

theorem webhook_accepts_bad_signature:
  "order_status shop 1 = Some ''pending'' \<and>
   status_of (snd (webhook 9 shop (pay_success (Some ''BAD'') ''ORDER_1_1700000000000''))) \<noteq> 401 \<and>
   order_status (fst (webhook 9 shop (pay_success (Some ''BAD'') ''ORDER_1_1700000000000''))) 1
     = Some ''processing''"
  by code_simp

text \<open>The handler gives the same result whatever the three provider headers are.\<close>

lemma webhook_ignores_headers:
  "webhook now d (req\<lparr>signature := s, timestamp := t, nonce := n\<rparr>) = webhook now d req"
  by (simp add: webhook_def webhook_on_def)

section \<open>The status of an order\<close>

text \<open>
  C3, as the claim states it: no \<^verbatim>\<open>PUT /orders/:id/status\<close> changes the status of a
  completed or cancelled order. This fails on the code, which never reads the current
  status: seller 3 moves the completed order 2 back to \<^verbatim>\<open>pending\<close>.
\<close>

theorem completed_order_reopened:
  "order_status shop 2 = Some ''completed'' \<and> ''pending'' \<in> set validStatuses \<and>
   snd (updateStatus 9 shop (ValidToken 3) 2 \<lparr>status = ''pending'', seller_id = None\<rparr>) = Status 200 \<and>
   order_status (fst (updateStatus 9 shop (ValidToken 3) 2 \<lparr>status = ''pending'', seller_id = None\<rparr>)) 2
     = Some ''pending''"
  by code_simp

text \<open>
  C3, amended: for an authenticated seller or superuser, one of the four valid target
  statuses and an existing order, the request is answered 200 and the order has the
  requested status afterwards, whatever its status was before (completed and cancelled
  included).
\<close>

theorem updateStatus_sets_requested_status:
  assumes "authenticateToken d tok = Inr user"
    and "u_role user = ''seller'' \<or> u_role user = ''superuser''"
    and "status body \<in> set validStatuses"
    and "order_status d orderId = Some old"
  shows "snd (updateStatus now d tok orderId body) = Status 200 \<and>
         order_status (fst (updateStatus now d tok orderId body)) orderId = Some (status body)"
proof -
  from assms(4) obtain order where ord: "getOne (filter (\<lambda>r. o_id r = orderId) (orders d)) = Some order"
    by (auto simp: order_status_def)
  then have oid: "o_id order = orderId" by (auto dest: getOne_filter_Some)
  show ?thesis
    unfolding updateStatus_accepted [OF assms(1-3) ord]
    by (simp add: order_status_def getOne_filter_map ord oid)
qed

theorem updateStatus_sets_requested_status_witness:
  "order_status shop 2 = Some ''completed'' \<and>
   snd (updateStatus 9 shop (ValidToken 3) 2 \<lparr>status = ''cancelled'', seller_id = None\<rparr>) = Status 200 \<and>
   order_status (fst (updateStatus 9 shop (ValidToken 3) 2 \<lparr>status = ''cancelled'', seller_id = None\<rparr>)) 2
     = Some ''cancelled''"
proof -
  have a: "authenticateToken shop (ValidToken 3) = Inr (shop_users ! 2)" by code_simp
  have b: "u_role (shop_users ! 2) = ''seller'' \<or> u_role (shop_users ! 2) = ''superuser''" by code_simp
  have c: "status \<lparr>status = ''cancelled'', seller_id = None\<rparr> \<in> set validStatuses" by code_simp
  have e: "order_status shop 2 = Some ''completed''" by code_simp
  show ?thesis
    using updateStatus_sets_requested_status [OF a b c e, of 9] e by simp
qed

section \<open>Claiming an order\<close>

text \<open>
  C4, as the claim states it: of two sellers claiming the same pending, unassigned
  order one succeeds and the other fails with Conflict. This fails on the code, which
  has no such answer: sellers 3 and 4 claim order 1 one after the other, and both are
  answered 200.
\<close>

theorem second_claim_answered_200:
  "order_status shop 1 = Some ''pending'' \<and> order_seller shop 1 = None \<and>
   snd (two_claims 10 11 shop 3 4 1) = (Status 200, Status 200) \<and>
   status_of (snd (snd (two_claims 10 11 shop 3 4 1))) \<noteq> 409 \<and>
   order_seller (fst (two_claims 10 11 shop 3 4 1)) 1 = Some 3"
  by code_simp

lemma updateStatus_claims_unassigned:
  assumes "authenticateToken d (ValidToken a) = Inr ua" and "u_role ua = ''seller''"
    and ord: "getOne (filter (\<lambda>r. o_id r = orderId) (orders d)) = Some order"
    and unassigned: "o_seller_id order = None"
  shows "updateStatus now d (ValidToken a) orderId claim =
     (d\<lparr>orders := map (\<lambda>r. if o_id r = orderId
                 then r\<lparr>o_status := ''processing'', o_seller_id := Some a, o_updated_at := now\<rparr>
                 else r) (orders d)\<rparr>, Status 200)"
proof -
  from assms(1) have ida: "u_id ua = a" by (auto dest: authenticateToken_ValidToken)
  have valid: "status claim \<in> set validStatuses" by (simp add: claim_def validStatuses_def)
  have role: "u_role ua = ''seller'' \<or> u_role ua = ''superuser''" using assms(2) by simp
  have st: "status claim = ''processing''" "seller_id claim = None" by (simp_all add: claim_def)
  show ?thesis
    unfolding updateStatus_accepted [OF assms(1) role valid ord, of now] st unassigned ida
    by (simp add: truthy_nat_def or_nat_def)
qed

lemma updateStatus_keeps_assigned_seller:
  assumes "authenticateToken d (ValidToken b) = Inr ub" and "u_role ub = ''seller''"
    and ord: "getOne (filter (\<lambda>r. o_id r = orderId) (orders d)) = Some order"
    and assigned: "o_seller_id order = Some a" and "a \<noteq> 0"
  shows "updateStatus now d (ValidToken b) orderId claim =
     (d\<lparr>orders := map (\<lambda>r. if o_id r = orderId
                 then r\<lparr>o_status := ''processing'', o_updated_at := now\<rparr>
                 else r) (orders d)\<rparr>, Status 200)"
proof -
  have valid: "status claim \<in> set validStatuses" by (simp add: claim_def validStatuses_def)
  have role: "u_role ub = ''seller'' \<or> u_role ub = ''superuser''" using assms(2) by simp
  have st: "status claim = ''processing''" by (simp add: claim_def)
  have tr: "truthy_nat (Some a)" using assms(5) by (simp add: truthy_nat_def)
  show ?thesis
    unfolding updateStatus_accepted [OF assms(1) role valid ord, of now] st assigned
    by (simp add: tr)
qed

text \<open>
  C4, amended: when two sellers claim the same pending, unassigned order, the first
  request handled sets \<^verbatim>\<open>seller_id\<close> to its seller, the second leaves it as it is, and
  both are answered 200; the order is \<^verbatim>\<open>processing\<close> and belongs to the first seller.
\<close>

theorem two_claims_first_seller_keeps_order:
  assumes "authenticateToken d (ValidToken a) = Inr ua" and "u_role ua = ''seller''"
    and "authenticateToken d (ValidToken b) = Inr ub" and "u_role ub = ''seller''"
    and "a \<noteq> 0"
    and "order_status d orderId = Some ''pending''" and "order_seller d orderId = None"
  shows "snd (two_claims now1 now2 d a b orderId) = (Status 200, Status 200) \<and>
         order_seller (fst (two_claims now1 now2 d a b orderId)) orderId = Some a \<and>
         order_status (fst (two_claims now1 now2 d a b orderId)) orderId = Some ''processing''"
proof -
  let ?P = "\<lambda>r. o_id r = orderId"
  from assms(6) obtain order where ord: "getOne (filter ?P (orders d)) = Some order"
    by (auto simp: order_status_def)
  then have oid: "o_id order = orderId" by (auto dest: getOne_filter_Some)
  from assms(7) ord have unassigned: "o_seller_id order = None" by (simp add: order_seller_def)
  let ?f = "\<lambda>r. if o_id r = orderId
                 then r\<lparr>o_status := ''processing'', o_seller_id := Some a, o_updated_at := now1\<rparr> else r"
  let ?g = "\<lambda>r. if o_id r = orderId then r\<lparr>o_status := ''processing'', o_updated_at := now2\<rparr> else r"
  let ?d1 = "d\<lparr>orders := map ?f (orders d)\<rparr>"
  let ?d2 = "?d1\<lparr>orders := map ?g (orders ?d1)\<rparr>"
  have first: "updateStatus now1 d (ValidToken a) orderId claim = (?d1, Status 200)"
    by (rule updateStatus_claims_unassigned [OF assms(1,2) ord unassigned])
  have "authenticateToken ?d1 (ValidToken b) = authenticateToken d (ValidToken b)"
    by (rule authenticateToken_users) simp
  then have auth1: "authenticateToken ?d1 (ValidToken b) = Inr ub"
    by (simp only: assms(3))
  have ord1: "getOne (filter ?P (orders ?d1)) = Some (?f order)"
    by (simp add: getOne_filter_map ord)
  have assigned: "o_seller_id (?f order) = Some a"
    by (simp add: oid)
  have second: "updateStatus now2 ?d1 (ValidToken b) orderId claim = (?d2, Status 200)"
    by (rule updateStatus_keeps_assigned_seller [OF auth1 assms(4) ord1 assigned assms(5)])
  have res: "two_claims now1 now2 d a b orderId = (?d2, Status 200, Status 200)"
    unfolding two_claims_def first Let_def prod.case second ..
  have ord2: "getOne (filter ?P (orders ?d2)) = Some (?g (?f order))"
    by (simp add: getOne_filter_map ord)
  show ?thesis
    unfolding res order_seller_def order_status_def fst_conv snd_conv ord2
    by (simp add: oid)
qed

theorem two_claims_first_seller_keeps_order_witness:
  "order_status shop 1 = Some ''pending'' \<and> order_seller shop 1 = None \<and>
   snd (two_claims 10 11 shop 3 4 1) = (Status 200, Status 200) \<and>
   order_seller (fst (two_claims 10 11 shop 3 4 1)) 1 = Some 3 \<and>
   order_status (fst (two_claims 10 11 shop 3 4 1)) 1 = Some ''processing''"
proof -
  have a: "authenticateToken shop (ValidToken 3) = Inr (shop_users ! 2)" by code_simp
  have ra: "u_role (shop_users ! 2) = ''seller''" by code_simp
  have b: "authenticateToken shop (ValidToken 4) = Inr (shop_users ! 3)" by code_simp
  have rb: "u_role (shop_users ! 3) = ''seller''" by code_simp
  have nz: "(3::nat) \<noteq> 0" by simp
  have p: "order_status shop 1 = Some ''pending''" by code_simp
  have u: "order_seller shop 1 = None" by code_simp
  from two_claims_first_seller_keeps_order [OF a ra b rb nz p u, of 10 11] p u
  show ?thesis by blast
qed

section \<open>Payment proofs\<close>

lemma paymentProof_accepted:
  assumes "authenticateToken d tok = Inr user" and "u_role user = ''buyer''"
    and "getOne (filter (\<lambda>r. o_id r = orderId \<and> o_buyer_id r = u_id user) (orders d)) = Some order"
    and "payment_proof body = Some proof" and "binance_txid body = Some txid"
  shows "paymentProof now d tok orderId body =
    (insert_transaction now orderId (u_id user) (o_total_amount order) txid proof
       (d\<lparr>orders := map (\<lambda>r. if o_id r = orderId
                              then r\<lparr>o_payment_proof := Some proof, o_binance_txid := Some txid,
                                     o_updated_at := now\<rparr>
                              else r) (orders d)\<rparr>), Status 200)"
  using assms by (simp add: paymentProof_def requireRole_def)

text \<open>
  C7. For a buyer who submits a proof text and an external txid on an order of their
  own, \<^verbatim>\<open>POST /orders/:id/payment-proof\<close> is answered 200; it appends exactly one row to
  \<^verbatim>\<open>transactions\<close>, pending and for the order's total amount; the order gets the proof
  and the txid; every order row keeps its status and every other column besides
  \<^verbatim>\<open>payment_proof\<close>, \<^verbatim>\<open>binance_txid\<close> and \<^verbatim>\<open>updated_at\<close>, and the other orders and tables
  are as before.
\<close>

theorem paymentProof_records_proof:
  assumes "authenticateToken d tok = Inr user" and "u_role user = ''buyer''"
    and "getOne (filter (\<lambda>r. o_id r = orderId \<and> o_buyer_id r = u_id user) (orders d)) = Some order"
    and "payment_proof body = Some proof" and "binance_txid body = Some txid"
  shows "snd (paymentProof now d tok orderId body) = Status 200 \<and>
     transactions (fst (paymentProof now d tok orderId body)) =
       transactions d @
         [\<lparr>t_id = Suc (seq_transactions d), t_order_id = orderId, t_user_id = u_id user,
           t_amount = o_total_amount order, t_binance_txid = Some txid,
           t_payment_proof_url = Some proof, t_status = ''pending'', t_created_at = now\<rparr>] \<and>
     list_all2 (\<lambda>r r'. same_but_proof r r' \<and> o_status r' = o_status r \<and>
                  (if o_id r = orderId
                   then o_payment_proof r' = Some proof \<and> o_binance_txid r' = Some txid
                   else r' = r))
       (orders d) (orders (fst (paymentProof now d tok orderId body))) \<and>
     users (fst (paymentProof now d tok orderId body)) = users d \<and>
     products (fst (paymentProof now d tok orderId body)) = products d \<and>
     order_items (fst (paymentProof now d tok orderId body)) = order_items d \<and>
     seller_earnings (fst (paymentProof now d tok orderId body)) = seller_earnings d"
  unfolding paymentProof_accepted [OF assms]
  by (simp add: insert_transaction_def list_all2_map2 same_but_proof_def list.rel_refl)

theorem paymentProof_records_proof_witness:
  "snd (paymentProof 12 shop (ValidToken 2) 1 \<lparr>payment_proof = Some ''proof-c'', binance_txid = Some ''tx-c''\<rparr>)
     = Status 200 \<and>
   map t_status (transactions (fst (paymentProof 12 shop (ValidToken 2) 1
      \<lparr>payment_proof = Some ''proof-c'', binance_txid = Some ''tx-c''\<rparr>)))
     = [''pending'', ''pending'', ''pending''] \<and>
   order_status (fst (paymentProof 12 shop (ValidToken 2) 1
      \<lparr>payment_proof = Some ''proof-c'', binance_txid = Some ''tx-c''\<rparr>)) 1 = Some ''pending''"
proof -
  let ?body = "\<lparr>payment_proof = Some ''proof-c'', binance_txid = Some ''tx-c''\<rparr>"
  have a: "authenticateToken shop (ValidToken 2) = Inr (shop_users ! 1)" by code_simp
  have r: "u_role (shop_users ! 1) = ''buyer''" by code_simp
  have g: "getOne (filter (\<lambda>r. o_id r = 1 \<and> o_buyer_id r = u_id (shop_users ! 1)) (orders shop))
             = Some (orders shop ! 0)" by code_simp
  have p: "payment_proof ?body = Some ''proof-c''" by simp
  have t: "binance_txid ?body = Some ''tx-c''" by simp
  have tr: "map t_status (transactions shop) = [''pending'', ''pending'']" by code_simp
  have os: "order_status (fst (paymentProof 12 shop (ValidToken 2) 1 ?body)) 1 = Some ''pending''"
    by code_simp
  from paymentProof_records_proof [OF a r g p t, of 12] tr os
  show ?thesis by simp
qed

section \<open>Handlers that leave the users alone\<close>

text \<open>The catalog, the order engine and the payment bridge write no row of \<^verbatim>\<open>users\<close>.\<close>

lemma users_add_items: "users (fst (add_items orderId its d)) = users d"
  by (induction its arbitrary: d)
     (simp_all add: decrement_stock_def insert_order_item_def split: option.splits quantity.splits)

lemma fst_case_flag:
  "fst (case p of (d2, True) \<Rightarrow> (d2, a d2) | (d2, False) \<Rightarrow> (d2, b d2)) = fst p"
  by (cases p; cases "snd p") simp_all

lemma users_createOrder: "users (fst (createOrder now d tok body)) = users d"
  unfolding createOrder_def
  by (rule requireRole_fst)
     (simp_all add: Let_def fst_case_flag users_add_items insert_order_def
               split: sum.splits option.splits)

lemma users_updateStatus: "users (fst (updateStatus now d tok orderId body)) = users d"
  unfolding updateStatus_def
  by (rule requireRole_fst) (simp_all split: option.splits)

lemma users_paymentProof: "users (fst (paymentProof now d tok orderId body)) = users d"
  unfolding paymentProof_def
  by (rule requireRole_fst) (simp_all add: insert_transaction_def split: option.splits)

lemma users_createPayment: "users (fst (createPayment secret stamp now d tok body)) = users d"
  unfolding createPayment_def
  by (rule authenticated_fst) (simp_all split: option.splits)

lemma users_webhook: "users (fst (webhook now d req)) = users d"
  unfolding webhook_def webhook_on_def
  by (simp add: Let_def split: option.splits)

lemma users_createProduct: "users (fst (createProduct now d tok body)) = users d"
  unfolding createProduct_def
  by (rule requireRole_fst) (simp_all split: option.splits)

lemma users_updateProduct: "users (fst (updateProduct now d tok pid body)) = users d"
  unfolding updateProduct_def
  by (rule requireRole_fst) (simp_all split: option.splits)

lemma users_deleteProduct: "users (fst (deleteProduct d tok pid)) = users d"
  unfolding deleteProduct_def
  by (rule requireRole_fst) simp_all

section \<open>Seller earnings\<close>

text \<open>
  C8, as the claim states it: after every accepted \<^verbatim>\<open>PUT /admin/sellers/:id/earnings\<close> the
  earnings are not negative. This fails on the code, which refuses an absent amount and
  zero but no negative number: adding -25 to the earnings 10 of seller 3 is accepted and
  leaves -15.
\<close>

theorem negative_amount_accepted:
  "map_option u_earnings (find_seller shop 3) = Some 10 \<and>
   snd (updateEarnings 9 shop (ValidToken 1) 3 \<lparr>amount = Some (- 25), operation = Some ''add''\<rparr>)
     = NewEarnings (- 15) \<and>
   map_option u_earnings
     (find_seller (fst (updateEarnings 9 shop (ValidToken 1) 3 \<lparr>amount = Some (- 25), operation = Some ''add''\<rparr>)) 3)
     = Some (- 15)"
  by code_simp

text \<open>\<^verbatim>\<open>POST /admin/sellers/:id/sales\<close> accepts a negative amount as well.\<close>

lemma negative_sale_accepted:
  "snd (assignSale 9 shop (ValidToken 1) 4 \<lparr>sale_order_id = Some 1, sale_amount = Some (- 25)\<rparr>)
     = Status 200 \<and>
   earnings_of (fst (assignSale 9 shop (ValidToken 1) 4 \<lparr>sale_order_id = Some 1, sale_amount = Some (- 25)\<rparr>)) 4
     = Some (- 25)"
  by code_simp


lemma find_seller_Some:
  "find_seller d sellerId = Some seller \<Longrightarrow> u_id seller = sellerId \<and> u_role seller = ''seller''"
  by (auto simp: find_seller_def dest: getOne_filter_Some)

lemma find_seller_mem:
  "find_seller d sellerId = Some seller \<Longrightarrow> seller \<in> set (users d)"
  by (auto simp: find_seller_def dest: getOne_filter_Some)

text \<open>
  Earnings are written by the two handlers of the earnings ledger and by the \<^verbatim>\<open>INSERT\<close>
  of a new user, whose earnings are 0. When the amount is not negative, what the two
  handlers write is not negative either.
\<close>

lemma earnings_nonneg_users:
  "users d' = users d \<Longrightarrow> earnings_nonneg d \<Longrightarrow> earnings_nonneg d'"
  by (simp add: earnings_nonneg_def)

lemma earnings_nonneg_seller:
  "earnings_nonneg d \<Longrightarrow> find_seller d sellerId = Some seller \<Longrightarrow> 0 \<le> u_earnings seller"
  by (auto simp: earnings_nonneg_def list_all_iff dest: find_seller_mem)

lemma earnings_nonneg_updateEarnings:
  assumes "earnings_nonneg d" and "no_negative_amount (now, UpdateEarnings tok sellerId body)"
  shows "earnings_nonneg (fst (updateEarnings now d tok sellerId body))"
  unfolding updateEarnings_def
proof (rule requireRole_fst)
  show "earnings_nonneg d" by (rule assms(1))
next
  fix user :: user_row
  show "earnings_nonneg (fst (case (amount body, operation body) of
         (Some amt, Some opr) \<Rightarrow>
           if dbl amt = 0 \<or> opr = [] then (d, Status 400)
           else
             (case find_seller d sellerId of
                None \<Rightarrow> (d, Status 404)
              | Some seller \<Rightarrow>
                  if opr = ''add'' \<or> opr = ''set'' then
                    (let newEarnings = (if opr = ''add'' then dadd (u_earnings seller) (dbl amt)
                                        else dbl amt)
                     in (d\<lparr>users := map (\<lambda>u. if u_id u = sellerId
                                                then u\<lparr>u_earnings := newEarnings, u_updated_at := now\<rparr>
                                                else u) (users d)\<rparr>, NewEarnings newEarnings))
                  else (d, Status 400))
       | _ \<Rightarrow> (d, Status 400)))"
    using assms earnings_nonneg_seller [OF assms(1)]
    by (auto simp: earnings_nonneg_def list_all_iff Let_def dbl_nonneg dadd_nonneg
             split: option.splits)
qed

lemma earnings_nonneg_assignSale:
  assumes "earnings_nonneg d" and "no_negative_amount (now, AssignSale tok sellerId body)"
  shows "earnings_nonneg (fst (assignSale now d tok sellerId body))"
  unfolding assignSale_def
proof (rule requireRole_fst)
  show "earnings_nonneg d" by (rule assms(1))
next
  fix user :: user_row
  show "earnings_nonneg (fst (case (sale_order_id body, sale_amount body) of
         (Some order_id, Some amt) \<Rightarrow>
           if order_id = 0 \<or> dbl amt = 0 then (d, Status 400)
           else
             (case find_seller d sellerId of
                None \<Rightarrow> (d, Status 404)
              | Some seller \<Rightarrow>
                  (d\<lparr>seller_earnings := seller_earnings d @
                        [\<lparr>se_id = Suc (seq_seller_earnings d), se_seller_id = sellerId,
                          se_order_id = order_id, se_amount = dbl amt, se_created_at = now\<rparr>],
                     seq_seller_earnings := Suc (seq_seller_earnings d),
                     users := map (\<lambda>u. if u_id u = sellerId
                                        then u\<lparr>u_earnings := dadd (u_earnings u) (dbl amt),
                                               u_updated_at := now\<rparr>
                                        else u) (users d)\<rparr>, Status 200))
       | _ \<Rightarrow> (d, Status 400)))"
    using assms
    by (auto simp: earnings_nonneg_def list_all_iff dbl_nonneg dadd_nonneg split: option.splits)
qed

lemma earnings_nonneg_insert_account:
  "earnings_nonneg d \<Longrightarrow> earnings_nonneg (fst (insert_account hash now role mail pw wallet d))"
  by (simp add: insert_account_def insert_user_def earnings_nonneg_def Let_def)

lemma earnings_nonneg_register:
  "earnings_nonneg d \<Longrightarrow> earnings_nonneg (fst (register hash now d body))"
  by (simp add: register_def earnings_nonneg_insert_account split: sum.splits prod.splits)

lemma earnings_nonneg_createSeller:
  "earnings_nonneg d \<Longrightarrow> earnings_nonneg (fst (createSeller hash now d tok body))"
  unfolding createSeller_def
  by (rule requireRole_fst) (simp_all add: earnings_nonneg_insert_account split: sum.splits prod.splits)

lemma earnings_nonneg_updateSeller_write:
  "earnings_nonneg d \<Longrightarrow> earnings_nonneg (fst (updateSeller_write hash now d sellerId body seller))"
  by (auto simp: updateSeller_write_def Let_def earnings_nonneg_def list_all_iff)

lemma earnings_nonneg_updateSeller:
  "earnings_nonneg d \<Longrightarrow> earnings_nonneg (fst (updateSeller hash now d tok sellerId body))"
  by (simp add: updateSeller_def earnings_nonneg_updateSeller_write split: sum.splits)

lemma earnings_nonneg_deactivateSeller:
  "earnings_nonneg d \<Longrightarrow> earnings_nonneg (fst (deactivateSeller d tok sellerId))"
  unfolding deactivateSeller_def
  by (rule requireRole_fst) (auto simp: earnings_nonneg_def list_all_iff)

lemma earnings_nonneg_handle:
  assumes "earnings_nonneg d" and "no_negative_amount rq"
  shows "earnings_nonneg (fst (handle hash d rq))"
proof -
  obtain now req where rq: "rq = (now, req)" by (cases rq)
  show ?thesis
  proof (cases req)
    case (Register body)
    show ?thesis unfolding rq Register handle.simps
      by (rule earnings_nonneg_register [OF assms(1)])
  next
    case (CreateSeller tok body)
    show ?thesis unfolding rq CreateSeller handle.simps
      by (rule earnings_nonneg_createSeller [OF assms(1)])
  next
    case (InsertAccount role mail pw wallet)
    show ?thesis unfolding rq InsertAccount handle.simps
      by (rule earnings_nonneg_insert_account [OF assms(1)])
  next
    case (UpdateSeller tok sellerId body)
    show ?thesis unfolding rq UpdateSeller handle.simps
      by (rule earnings_nonneg_updateSeller [OF assms(1)])
  next
    case (WriteSeller sellerId body seller)
    show ?thesis unfolding rq WriteSeller handle.simps
      by (rule earnings_nonneg_updateSeller_write [OF assms(1)])
  next
    case (DeactivateSeller tok sellerId)
    show ?thesis unfolding rq DeactivateSeller handle.simps
      by (rule earnings_nonneg_deactivateSeller [OF assms(1)])
  next
    case (UpdateEarnings tok sellerId body)
    from assms(2) show ?thesis unfolding rq UpdateEarnings handle.simps
      by (rule earnings_nonneg_updateEarnings [OF assms(1)])
  next
    case (AssignSale tok sellerId body)
    from assms(2) show ?thesis unfolding rq AssignSale handle.simps
      by (rule earnings_nonneg_assignSale [OF assms(1)])
  next
    case (CreateProduct tok body)
    show ?thesis unfolding rq CreateProduct handle.simps
      by (rule earnings_nonneg_users [OF users_createProduct assms(1)])
  next
    case (UpdateProduct tok pid body)
    show ?thesis unfolding rq UpdateProduct handle.simps
      by (rule earnings_nonneg_users [OF users_updateProduct assms(1)])
  next
    case (DeleteProduct tok pid)
    show ?thesis unfolding rq DeleteProduct handle.simps
      by (rule earnings_nonneg_users [OF users_deleteProduct assms(1)])
  next
    case (CreateOrder tok body)
    show ?thesis unfolding rq CreateOrder handle.simps
      by (rule earnings_nonneg_users [OF users_createOrder assms(1)])
  next
    case (UpdateStatus tok orderId body)
    show ?thesis unfolding rq UpdateStatus handle.simps
      by (rule earnings_nonneg_users [OF users_updateStatus assms(1)])
  next
    case (PaymentProof tok orderId body)
    show ?thesis unfolding rq PaymentProof handle.simps
      by (rule earnings_nonneg_users [OF users_paymentProof assms(1)])
  next
    case (CreatePayment secret stamp tok body)
    show ?thesis unfolding rq CreatePayment handle.simps
      by (rule earnings_nonneg_users [OF users_createPayment assms(1)])
  next
    case (Webhook req')
    show ?thesis unfolding rq Webhook handle.simps
      by (rule earnings_nonneg_users [OF users_webhook assms(1)])
  qed
qed

lemma earnings_nonneg_run:
  assumes "earnings_nonneg d" and "list_all no_negative_amount rqs"
  shows "earnings_nonneg (run hash d rqs)"
  using assms
proof (induction rqs arbitrary: d)
  case Nil
  then show ?case by simp
next
  case (Cons rq rqs)
  from Cons.prems have "earnings_nonneg (fst (handle hash d rq))"
    by (simp add: earnings_nonneg_handle)
  moreover from Cons.prems have "list_all no_negative_amount rqs"
    by simp
  ultimately show ?case
    using Cons.IH by simp
qed

text \<open>An accepted \<^verbatim>\<open>PUT /admin/sellers/:id/earnings\<close> stores what it answers.\<close>

lemma updateEarnings_stores:
  assumes "snd (updateEarnings now d tok sellerId body) = NewEarnings e"
  shows "earnings_of (fst (updateEarnings now d tok sellerId body)) sellerId = Some e"
proof -
  from assms obtain seller where found: "find_seller d sellerId = Some seller"
    and st: "fst (updateEarnings now d tok sellerId body) =
           d\<lparr>users := map (\<lambda>u. if u_id u = sellerId
                                 then u\<lparr>u_earnings := e, u_updated_at := now\<rparr> else u) (users d)\<rparr>"
    by (auto simp: updateEarnings_def requireRole_def Let_def
             split: sum.splits option.splits if_splits)
  from find_seller_Some [OF found] find_seller_mem [OF found]
  have "seller \<in> set (filter (\<lambda>u. u_id u = sellerId) (users d))"
    by simp
  then obtain u where u: "getOne (filter (\<lambda>u. u_id u = sellerId) (users d)) = Some u"
    by (cases "filter (\<lambda>u. u_id u = sellerId) (users d)") (auto simp: getOne_def)
  from getOne_filter_Some [OF u] have "u_id u = sellerId" by blast
  then show ?thesis
    unfolding st earnings_of_def by (simp add: getOne_filter_map u)
qed

text \<open>
  C8, amended. Let every user's earnings be at least 0, and let the store handle any
  steps of which none carries a negative amount. Then every user's earnings are at least
  0; and an accepted \<^verbatim>\<open>PUT /admin/sellers/:id/earnings\<close> that comes next, with the operation
  \<^verbatim>\<open>add\<close> or \<^verbatim>\<open>set\<close> and an amount that is not negative, answers and stores earnings that
  are at least 0, and leaves every user's earnings at least 0.
\<close>

theorem earnings_stay_nonneg:
  assumes "earnings_nonneg d" and "list_all no_negative_amount rqs"
  shows "earnings_nonneg (run hash d rqs) \<and>
         (no_negative_amount (now, UpdateEarnings tok sellerId body) \<longrightarrow>
          snd (updateEarnings now (run hash d rqs) tok sellerId body) = NewEarnings e \<longrightarrow>
            0 \<le> e \<and>
            earnings_of (fst (updateEarnings now (run hash d rqs) tok sellerId body)) sellerId = Some e \<and>
            earnings_nonneg (fst (updateEarnings now (run hash d rqs) tok sellerId body)))"
proof -
  let ?d = "run hash d rqs"
  have inv: "earnings_nonneg ?d"
    using assms by (rule earnings_nonneg_run)
  have "0 \<le> e \<and> earnings_of (fst (updateEarnings now ?d tok sellerId body)) sellerId = Some e \<and>
        earnings_nonneg (fst (updateEarnings now ?d tok sellerId body))"
    if ok: "no_negative_amount (now, UpdateEarnings tok sellerId body)"
      and acc: "snd (updateEarnings now ?d tok sellerId body) = NewEarnings e"
  proof -
    let ?d' = "fst (updateEarnings now ?d tok sellerId body)"
    have inv': "earnings_nonneg ?d'"
      using inv ok by (rule earnings_nonneg_updateEarnings)
    have st: "earnings_of ?d' sellerId = Some e"
      using acc by (rule updateEarnings_stores)
    then obtain u where "getOne (filter (\<lambda>u. u_id u = sellerId) (users ?d')) = Some u"
      and "u_earnings u = e"
      by (auto simp: earnings_of_def)
    with getOne_filter_Some [of "\<lambda>u. u_id u = sellerId" "users ?d'" u] inv'
    have "0 \<le> e"
      by (auto simp: earnings_nonneg_def list_all_iff)
    with st inv' show ?thesis by blast
  qed
  with inv show ?thesis by blast
qed

theorem earnings_stay_nonneg_witness:
  "earnings_nonneg shop \<and>
   map u_earnings (users (run rev shop
      [(9, UpdateEarnings (ValidToken 1) 3 \<lparr>amount = Some 5, operation = Some ''add''\<rparr>),
       (10, AssignSale (ValidToken 1) 4 \<lparr>sale_order_id = Some 1, sale_amount = Some (1 / 10)\<rparr>),
       (11, UpdateEarnings (ValidToken 1) 4 \<lparr>amount = Some (2 / 10), operation = Some ''add''\<rparr>)]))
     = [0, 0, 15, 1351079888211149 / 4503599627370496] \<and>
   snd (updateEarnings 12 (run rev shop
      [(9, UpdateEarnings (ValidToken 1) 3 \<lparr>amount = Some 5, operation = Some ''add''\<rparr>),
       (10, AssignSale (ValidToken 1) 4 \<lparr>sale_order_id = Some 1, sale_amount = Some (1 / 10)\<rparr>),
       (11, UpdateEarnings (ValidToken 1) 4 \<lparr>amount = Some (2 / 10), operation = Some ''add''\<rparr>)])
      (ValidToken 1) 3 \<lparr>amount = Some (15 / 2), operation = Some ''set''\<rparr>) = NewEarnings (15 / 2) \<and>
   earnings_of (fst (updateEarnings 12 (run rev shop
      [(9, UpdateEarnings (ValidToken 1) 3 \<lparr>amount = Some 5, operation = Some ''add''\<rparr>),
       (10, AssignSale (ValidToken 1) 4 \<lparr>sale_order_id = Some 1, sale_amount = Some (1 / 10)\<rparr>),
       (11, UpdateEarnings (ValidToken 1) 4 \<lparr>amount = Some (2 / 10), operation = Some ''add''\<rparr>)])
      (ValidToken 1) 3 \<lparr>amount = Some (15 / 2), operation = Some ''set''\<rparr>)) 3 = Some (15 / 2)"
proof -
  let ?rqs = "[(9, UpdateEarnings (ValidToken 1) 3 \<lparr>amount = Some 5, operation = Some ''add''\<rparr>),
       (10, AssignSale (ValidToken 1) 4 \<lparr>sale_order_id = Some 1, sale_amount = Some (1 / 10)\<rparr>),
       (11, UpdateEarnings (ValidToken 1) 4 \<lparr>amount = Some (2 / 10), operation = Some ''add''\<rparr>)]"
  let ?body = "\<lparr>amount = Some (15 / 2), operation = Some ''set''\<rparr>"
  have i: "earnings_nonneg shop" by code_simp
  have q: "list_all no_negative_amount ?rqs" by simp
  have b: "no_negative_amount (12, UpdateEarnings (ValidToken 1) 3 ?body)" by simp
  have m: "map u_earnings (users (run rev shop ?rqs)) = [0, 0, 15, 1351079888211149 / 4503599627370496]"
    by code_simp
  have a: "snd (updateEarnings 12 (run rev shop ?rqs) (ValidToken 1) 3 ?body) = NewEarnings (15 / 2)"
    by code_simp
  from earnings_stay_nonneg [OF i q, of rev 12 "ValidToken 1" 3 ?body "15 / 2"] b a
  have "earnings_of (fst (updateEarnings 12 (run rev shop ?rqs) (ValidToken 1) 3 ?body)) 3 = Some (15 / 2)"
    by blast
  with i m a show ?thesis by blast
qed

section \<open>Soft-deleted products\<close>

lemma deleteProduct_accepted:
  assumes "authenticateToken d tok = Inr su" and "u_role su = ''superuser''"
  shows "deleteProduct d tok pid =
           (d\<lparr>products := map (\<lambda>p. if p_id p = pid then p\<lparr>p_is_active := False\<rparr> else p) (products d)\<rparr>,
            Status 200)"
  using assms by (simp add: deleteProduct_def requireRole_def)

lemma listProducts_active:
  "row \<in> set (listProducts d category) \<Longrightarrow> fst row \<in> set (products d) \<and> p_is_active (fst row)"
  by (auto simp: listProducts_def)

lemma map_filter_map:
  assumes "\<And>x. P (f x) = P x" and "\<And>x. g (f x) = g x"
  shows "map g (filter P (map f xs)) = map g (filter P xs)"
  by (induction xs) (simp_all add: assms)

lemma order_items_of_map:
  assumes "\<And>p. p_id (f p) = p_id p" and "\<And>p. p_name (f p) = p_name p"
  shows "order_items_of (d\<lparr>products := map f (products d)\<rparr>) orderId = order_items_of d orderId"
  by (simp add: order_items_of_def map_filter_map assms)

lemma order_items_of_resolves:
  assumes "oi \<in> set (order_items d)" and "p \<in> set (products d)" and "oi_product_id oi = p_id p"
  shows "(oi, p_name p) \<in> set (order_items_of d (oi_order_id oi))"
  using assms by (auto simp: order_items_of_def)

text \<open>
  What \<^verbatim>\<open>GET /orders\<close> and \<^verbatim>\<open>GET /orders/:id\<close> answer: every order comes with the joined
  items of its id, and a superuser is shown every order whose buyer exists.
\<close>

lemma listOrders_rows:
  assumes "listOrders d tok = Inr rows" and "(ord, its) \<in> set rows"
  shows "its = order_items_of d (o_id ord)"
  using assms by (auto simp: listOrders_def split: sum.splits)

lemma getOrder_row:
  assumes "getOrder d tok orderId = Inr (ord, its)"
  shows "o_id ord = orderId \<and> its = order_items_of d orderId"
  using assms
  by (auto simp: getOrder_def split: sum.splits option.splits if_splits dest: getOne_filter_Some)

lemma listOrders_superuser:
  assumes "authenticateToken d tok = Inr su" and "u_role su = ''superuser''"
    and "r \<in> set (orders d)" and "\<exists>u \<in> set (users d). o_buyer_id r = u_id u"
  shows "\<exists>rows. listOrders d tok = Inr rows \<and> (r, order_items_of d (o_id r)) \<in> set rows"
proof -
  from assms(2-4) have "r \<in> set (visible_orders d su)"
    by (simp add: visible_orders_def)
  then have "(r, order_items_of d (o_id r))
      \<in> set (map (\<lambda>r. (r, order_items_of d (o_id r)))
                (sort_key (\<lambda>r. - int (o_created_at r)) (visible_orders d su)))"
    by simp
  then show ?thesis
    by (simp add: listOrders_def assms(1))
qed

lemma getOrder_superuser:
  assumes "authenticateToken d tok = Inr su" and "u_role su = ''superuser''"
    and "r \<in> set (orders d)" and "\<exists>u \<in> set (users d). o_buyer_id r = u_id u"
  shows "\<exists>ord. getOrder d tok (o_id r) = Inr (ord, order_items_of d (o_id r)) \<and> o_id ord = o_id r"
proof -
  let ?rows = "filter (\<lambda>x. o_id x = o_id r \<and> (\<exists>u \<in> set (users d). o_buyer_id x = u_id u)) (orders d)"
  from assms(3,4) have "r \<in> set ?rows" by simp
  then obtain ord where found: "getOne ?rows = Some ord"
    by (cases ?rows) (auto simp: getOne_def)
  from getOne_filter_Some [OF found] have same: "o_id ord = o_id r" by blast
  have "getOrder d tok (o_id r) = Inr (ord, order_items_of d (o_id ord))"
    by (simp add: getOrder_def assms(1,2) found)
  with same show ?thesis by simp
qed

text \<open>
  C9. Let an order item of an existing order (one whose buyer exists) refer to a product,
  and let a superuser delete the product with \<^verbatim>\<open>DELETE /products/:id\<close>. Then the request is
  answered 200; no row of \<^verbatim>\<open>GET /products\<close> (with any category filter) has the product's
  id; \<^verbatim>\<open>GET /orders\<close> and \<^verbatim>\<open>GET /orders/:id\<close> answer the superuser with the order, and the
  order item is among its items, joined to the product's name; every answer of the two
  requests to any caller that holds the order holds the item with the name; and both
  answer every caller as before the deletion.
\<close>

theorem deleted_product_still_resolves:
  assumes "authenticateToken d tok = Inr su" and "u_role su = ''superuser''"
    and "p \<in> set (products d)" and "p_id p = pid"
    and "oi \<in> set (order_items d)" and "oi_product_id oi = pid"
    and "r \<in> set (orders d)" and "o_id r = oi_order_id oi"
    and "\<exists>u \<in> set (users d). o_buyer_id r = u_id u"
  shows "snd (deleteProduct d tok pid) = Status 200 \<and>
         pid \<notin> p_id ` fst ` set (listProducts (fst (deleteProduct d tok pid)) category) \<and>
         (\<exists>rows its. listOrders (fst (deleteProduct d tok pid)) tok = Inr rows \<and>
                     (r, its) \<in> set rows \<and> (oi, p_name p) \<in> set its) \<and>
         (\<exists>ord its. getOrder (fst (deleteProduct d tok pid)) tok (o_id r) = Inr (ord, its) \<and>
                    o_id ord = o_id r \<and> (oi, p_name p) \<in> set its) \<and>
         (\<forall>rows ord its. listOrders (fst (deleteProduct d tok pid)) tok' = Inr rows \<longrightarrow>
                    (ord, its) \<in> set rows \<longrightarrow> o_id ord = o_id r \<longrightarrow> (oi, p_name p) \<in> set its) \<and>
         (\<forall>ord its. getOrder (fst (deleteProduct d tok pid)) tok' (o_id r) = Inr (ord, its) \<longrightarrow>
                    (oi, p_name p) \<in> set its) \<and>
         listOrders (fst (deleteProduct d tok pid)) tok' = listOrders d tok' \<and>
         getOrder (fst (deleteProduct d tok pid)) tok' orderId = getOrder d tok' orderId"
proof -
  let ?f = "\<lambda>p. if p_id p = pid then p\<lparr>p_is_active := False\<rparr> else p"
  let ?d' = "d\<lparr>products := map ?f (products d)\<rparr>"
  have run: "deleteProduct d tok pid = (?d', Status 200)"
    by (rule deleteProduct_accepted [OF assms(1,2)])
  have items: "order_items_of ?d' k = order_items_of d k" for k
    by (rule order_items_of_map) simp_all
  have auth: "authenticateToken ?d' t = authenticateToken d t" for t
    by (rule authenticateToken_users) simp
  have gone: "pid \<notin> p_id ` fst ` set (listProducts ?d' category)"
  proof
    assume "pid \<in> p_id ` fst ` set (listProducts ?d' category)"
    then obtain row where row: "row \<in> set (listProducts ?d' category)" and pid: "p_id (fst row) = pid"
      by auto
    from listProducts_active [OF row]
    have mem: "fst row \<in> set (products ?d')" and act: "p_is_active (fst row)"
      by blast+
    from mem have "fst row \<in> ?f ` set (products d)"
      by simp
    then obtain q where q: "fst row = ?f q"
      by (rule imageE)
    show False
    proof (cases "p_id q = pid")
      case True
      with q have "fst row = q\<lparr>p_is_active := False\<rparr>" by simp
      with act show False by simp
    next
      case False
      with q have "fst row = q" by simp
      with pid False show False by simp
    qed
  qed
  have "(oi, p_name p) \<in> set (order_items_of ?d' (oi_order_id oi))"
    unfolding items using assms(3-6) by (intro order_items_of_resolves) simp_all
  then have res: "(oi, p_name p) \<in> set (order_items_of ?d' (o_id r))"
    by (simp add: assms(8))
  have su: "authenticateToken ?d' tok = Inr su"
    unfolding auth by (rule assms(1))
  have mem: "r \<in> set (orders ?d')" and buyer: "\<exists>u \<in> set (users ?d'). o_buyer_id r = u_id u"
    using assms(7,9) by simp_all
  from listOrders_superuser [OF su assms(2) mem buyer] res
  have listed: "\<exists>rows its. listOrders ?d' tok = Inr rows \<and> (r, its) \<in> set rows \<and> (oi, p_name p) \<in> set its"
    by blast
  from getOrder_superuser [OF su assms(2) mem buyer] res
  have fetched: "\<exists>ord its. getOrder ?d' tok (o_id r) = Inr (ord, its) \<and> o_id ord = o_id r \<and>
                   (oi, p_name p) \<in> set its"
    by blast
  have any_list: "(oi, p_name p) \<in> set its"
    if "listOrders ?d' tok' = Inr rows" and "(ord, its) \<in> set rows" and "o_id ord = o_id r"
    for rows ord its
    using listOrders_rows [OF that(1,2)] that(3) res by simp
  have any_fetch: "(oi, p_name p) \<in> set its"
    if "getOrder ?d' tok' (o_id r) = Inr (ord, its)" for ord its
    using getOrder_row [OF that] res by simp
  have vis: "visible_orders ?d' u = visible_orders d u" for u
    by (simp add: visible_orders_def)
  have lo: "listOrders ?d' tok' = listOrders d tok'"
    unfolding listOrders_def auth items vis ..
  have go: "getOrder ?d' tok' orderId = getOrder d tok' orderId"
    unfolding getOrder_def auth items by (simp split: sum.splits)
  show ?thesis unfolding run fst_conv snd_conv
    using gone listed fetched any_list any_fetch lo go by blast
qed

theorem deleted_product_still_resolves_witness:
  "snd (deleteProduct shop (ValidToken 1) 1) = Status 200 \<and>
   listProducts (fst (deleteProduct shop (ValidToken 1) 1)) None = [] \<and>
   map_sum id (\<lambda>(ord, its). (o_id ord, map (\<lambda>(oi, nm). (oi_id oi, nm)) its))
     (getOrder (fst (deleteProduct shop (ValidToken 1) 1)) (ValidToken 1) 1)
     = Inr (1, [(1, ''Steam Gift Card'')]) \<and>
   map_sum id (map (\<lambda>(ord, its). (o_id ord, map (\<lambda>(oi, nm). (oi_id oi, nm)) its)))
     (listOrders (fst (deleteProduct shop (ValidToken 1) 1)) (ValidToken 2))
     = Inr [(2, [(2, ''Steam Gift Card'')]), (1, [(1, ''Steam Gift Card'')])] \<and>
   (order_items shop ! 0, ''Steam Gift Card'')
     \<in> set (snd (projr (getOrder (fst (deleteProduct shop (ValidToken 1) 1)) (ValidToken 2) 1)))"
proof -
  let ?d' = "fst (deleteProduct shop (ValidToken 1) 1)"
  have a: "authenticateToken shop (ValidToken 1) = Inr (shop_users ! 0)" by code_simp
  have r: "u_role (shop_users ! 0) = ''superuser''" by code_simp
  have p: "products shop ! 0 \<in> set (products shop)" by (simp add: shop_def shop0_def)
  have i: "p_id (products shop ! 0) = 1" by code_simp
  have n: "p_name (products shop ! 0) = ''Steam Gift Card''" by code_simp
  have o: "order_items shop ! 0 \<in> set (order_items shop)" by (simp add: shop_def shop0_def)
  have oi: "oi_product_id (order_items shop ! 0) = 1" by code_simp
  have m: "orders shop ! 0 \<in> set (orders shop)" by (simp add: shop_def shop0_def)
  have k: "o_id (orders shop ! 0) = oi_order_id (order_items shop ! 0)" by code_simp
  have k1: "o_id (orders shop ! 0) = 1" by code_simp
  have b: "\<exists>u \<in> set (users shop). o_buyer_id (orders shop ! 0) = u_id u"
    by (simp add: shop_def shop0_def shop_users_def)
  have l: "listProducts ?d' None = []" by code_simp
  have g: "map_sum id (\<lambda>(ord, its). (o_id ord, map (\<lambda>(oi, nm). (oi_id oi, nm)) its))
     (getOrder ?d' (ValidToken 1) 1) = Inr (1, [(1, ''Steam Gift Card'')])" by code_simp
  have lo: "map_sum id (map (\<lambda>(ord, its). (o_id ord, map (\<lambda>(oi, nm). (oi_id oi, nm)) its)))
     (listOrders ?d' (ValidToken 2)) = Inr [(2, [(2, ''Steam Gift Card'')]), (1, [(1, ''Steam Gift Card'')])]"
    by code_simp
  have ok: "isl (getOrder ?d' (ValidToken 2) 1) = False" by code_simp
  note inst = deleted_product_still_resolves [OF a r p i o oi m k b, of None "ValidToken 2" 1]
  from inst have s: "snd (deleteProduct shop (ValidToken 1) 1) = Status 200"
    by blast
  from inst have "\<forall>ord its. getOrder ?d' (ValidToken 2) 1 = Inr (ord, its) \<longrightarrow>
      (order_items shop ! 0, ''Steam Gift Card'') \<in> set its"
    unfolding k1 n by blast
  with ok have "(order_items shop ! 0, ''Steam Gift Card'') \<in> set (snd (projr (getOrder ?d' (ValidToken 2) 1)))"
    by (cases "getOrder ?d' (ValidToken 2) 1") auto
  with s l g lo show ?thesis by blast
qed

section \<open>Updating a seller\<close>


text \<open>
  With no step during its wait the handler is \<open>updateSeller\<close>. Two registrations of one
  address that overlap both pass the check; the second \<^verbatim>\<open>INSERT\<close> throws.
\<close>

lemma updateSeller_overlapped_Nil:
  "updateSeller_overlapped hash now d tok sellerId body [] = updateSeller hash now d tok sellerId body"
  by (simp add: updateSeller_overlapped_def updateSeller_def split: sum.splits)

lemma overlapping_registrations:
  "account_check shop0 \<lparr>email = Some ''n@x.org'', password = Some ''pw'', binance_wallet = None\<rparr>
     = Inr (''n@x.org'', ''pw'') \<and>
   snd (handle rev shop0 (5, InsertAccount ''buyer'' ''n@x.org'' ''pw'' None)) = Created 5 \<and>
   snd (handle rev (run rev shop0 [(5, InsertAccount ''buyer'' ''n@x.org'' ''pw'' None)])
          (6, InsertAccount ''buyer'' ''n@x.org'' ''pw'' None)) = Status 500 \<and>
   snd (register rev 6 (run rev shop0 [(5, InsertAccount ''buyer'' ''n@x.org'' ''pw'' None)])
          \<lparr>email = Some ''n@x.org'', password = Some ''pw'', binance_wallet = None\<rparr>) = Status 400"
  by code_simp




















section \<open>Order totals\<close>

text \<open>
  Every step but two leaves the ledger of a store as it is; \<^verbatim>\<open>POST /products\<close> adds a
  product id, and \<^verbatim>\<open>POST /orders\<close> is treated below.
\<close>

lemma order_keys_map:
  assumes "\<And>r. o_id (f r) = o_id r" and "\<And>r. o_total_amount (f r) = o_total_amount r"
  shows "map (\<lambda>r. (o_id r, o_total_amount r)) (map f rs) = map (\<lambda>r. (o_id r, o_total_amount r)) rs"
  by (simp add: assms)

lemma ledger_updateStatus: "ledger (fst (updateStatus now d tok orderId body)) = ledger d"
  unfolding updateStatus_def
  by (rule requireRole_fst) (simp_all add: ledger_def order_keys_def order_keys_map split: option.splits)

lemma ledger_paymentProof: "ledger (fst (paymentProof now d tok orderId body)) = ledger d"
  unfolding paymentProof_def
  by (rule requireRole_fst)
     (simp_all add: ledger_def order_keys_def order_keys_map insert_transaction_def split: option.splits)

lemma ledger_createPayment: "ledger (fst (createPayment secret stamp now d tok body)) = ledger d"
  unfolding createPayment_def
  by (rule authenticated_fst) (simp_all add: ledger_def order_keys_def order_keys_map split: option.splits)

lemma ledger_webhook: "ledger (fst (webhook now d req)) = ledger d"
  unfolding webhook_def webhook_on_def
  by (simp add: ledger_def order_keys_def order_keys_map Let_def split: option.splits)

lemma ledger_insert_account:
  "ledger (fst (insert_account hash now role mail pw wallet d)) = ledger d"
  by (simp add: insert_account_def ledger_def order_keys_def insert_user_def Let_def)

lemma ledger_register: "ledger (fst (register hash now d body)) = ledger d"
  by (simp add: register_def ledger_insert_account split: sum.splits prod.splits)

lemma ledger_createSeller: "ledger (fst (createSeller hash now d tok body)) = ledger d"
  unfolding createSeller_def
  by (rule requireRole_fst) (simp_all add: ledger_insert_account split: sum.splits prod.splits)

lemma ledger_updateSeller_write:
  "ledger (fst (updateSeller_write hash now d sellerId body seller)) = ledger d"
  by (simp add: updateSeller_write_def ledger_def order_keys_def Let_def)

lemma ledger_updateSeller: "ledger (fst (updateSeller hash now d tok sellerId body)) = ledger d"
  by (simp add: updateSeller_def ledger_updateSeller_write split: sum.splits)

lemma ledger_deactivateSeller: "ledger (fst (deactivateSeller d tok sellerId)) = ledger d"
  unfolding deactivateSeller_def
  by (rule requireRole_fst) (simp_all add: ledger_def order_keys_def)

lemma ledger_updateEarnings: "ledger (fst (updateEarnings now d tok sellerId body)) = ledger d"
  unfolding updateEarnings_def
  by (rule requireRole_fst) (simp_all add: ledger_def order_keys_def Let_def split: option.splits)

lemma ledger_assignSale: "ledger (fst (assignSale now d tok sellerId body)) = ledger d"
  unfolding assignSale_def
  by (rule requireRole_fst) (simp_all add: ledger_def order_keys_def split: option.splits)

lemma ledger_updateProduct: "ledger (fst (updateProduct now d tok pid body)) = ledger d"
  unfolding updateProduct_def
  by (rule requireRole_fst) (simp_all add: ledger_def order_keys_def comp_def split: option.splits)

lemma ledger_deleteProduct: "ledger (fst (deleteProduct d tok pid)) = ledger d"
  unfolding deleteProduct_def
  by (rule requireRole_fst) (simp_all add: ledger_def order_keys_def comp_def)

text \<open>
  The first and the second loop of \<^verbatim>\<open>POST /orders\<close> read the same price: the first
  selects the active row with the product's id, the second the row with that id, and ids
  are a primary key; between the two only stocks change. The first loop accumulates the
  total from 0 in the order of the lines, and the second inserts the lines in that order,
  so the same sums are rounded in the same order.
\<close>

lemma getOne_filter_distinct:
  assumes "distinct (map p_id ps)"
    and "getOne (filter (\<lambda>p. p_id p = x \<and> P p) ps) = Some prow"
  shows "getOne (filter (\<lambda>p. p_id p = x) ps) = Some prow"
  using assms
proof (induction ps)
  case Nil
  then show ?case by (simp add: getOne_def)
next
  case (Cons q qs)
  show ?case
  proof (cases "p_id q = x")
    case True
    from Cons.prems(1) have notin: "p_id q \<notin> set (map p_id qs)"
      by simp
    have "p_id p \<noteq> x" if "p \<in> set qs" for p
    proof
      assume eq: "p_id p = x"
      from that have "p_id p \<in> p_id ` set qs" by (rule imageI)
      with eq True notin show False by simp
    qed
    then have "filter (\<lambda>p. p_id p = x \<and> P p) qs = []"
      by (simp add: filter_empty_conv)
    with Cons.prems(2) True show ?thesis
      by (simp add: getOne_def split: if_splits)
  next
    case False
    with Cons show ?thesis by simp
  qed
qed

lemma getOne_filter_same_prices:
  assumes "map (\<lambda>p. (p_id p, p_price p)) qs = map (\<lambda>p. (p_id p, p_price p)) ps"
  shows "map_option p_price (getOne (filter (\<lambda>p. p_id p = x) qs))
       = map_option p_price (getOne (filter (\<lambda>p. p_id p = x) ps))"
  using assms
proof (induction ps arbitrary: qs)
  case Nil
  then show ?case by (simp add: getOne_def)
next
  case (Cons p ps)
  then obtain q qs' where qs: "qs = q # qs'" by (cases qs) auto
  with Cons.prems have hd: "p_id q = p_id p" "p_price q = p_price p"
    and tl: "map (\<lambda>p. (p_id p, p_price p)) qs' = map (\<lambda>p. (p_id p, p_price p)) ps"
    by simp_all
  from Cons.IH [OF tl] show ?case
    unfolding qs by (simp add: getOne_def hd)
qed

lemma prices_after_line:
  "map (\<lambda>p. (p_id p, p_price p)) (products (decrement_stock pid n (insert_order_item orderId pid n pr d)))
     = map (\<lambda>p. (p_id p, p_price p)) (products d)"
  by (simp add: decrement_stock_def insert_order_item_def comp_def)

text \<open>
  The second loop appends order items under the id of the order, and touches neither
  the orders nor the ids of the products, however far it gets.
\<close>

lemma add_items_lines:
  "\<exists>new. order_items (fst (add_items orderId its d)) = order_items d @ new \<and>
         list_all (\<lambda>oi. oi_order_id oi = orderId) new"
proof (induction its arbitrary: d)
  case Nil
  show ?case by simp
next
  case (Cons item rest)
  show ?case
  proof (cases "getOne (filter (\<lambda>p. p_id p = product_id item) (products d))")
    case None
    then show ?thesis by simp
  next
    case (Some prow)
    show ?thesis
    proof (cases "quantity item")
      case (Quantity n)
      let ?d1 = "decrement_stock (product_id item) n
                   (insert_order_item orderId (product_id item) n (p_price prow) d)"
      from Cons.IH [of ?d1] obtain new
        where "order_items (fst (add_items orderId rest ?d1)) = order_items ?d1 @ new"
          and "list_all (\<lambda>oi. oi_order_id oi = orderId) new"
        by blast
      moreover have "\<exists>line. order_items ?d1 = order_items d @ [line] \<and> oi_order_id line = orderId"
        by (simp add: decrement_stock_def insert_order_item_def)
      ultimately obtain line
        where "order_items (fst (add_items orderId rest ?d1)) = order_items d @ (line # new)"
          and "list_all (\<lambda>oi. oi_order_id oi = orderId) (line # new)"
        by auto
      then show ?thesis
        unfolding add_items.simps Some Quantity option.case quantity.case by blast
    next
      case Null
      with Some show ?thesis by simp
    next
      case Absent
      with Some show ?thesis by simp
    qed
  qed
qed

lemma add_items_frame:
  "orders (fst (add_items orderId its d)) = orders d \<and>
   seq_orders (fst (add_items orderId its d)) = seq_orders d \<and>
   map p_id (products (fst (add_items orderId its d))) = map p_id (products d) \<and>
   seq_products (fst (add_items orderId its d)) = seq_products d"
  by (induction its arbitrary: d)
     (simp_all add: decrement_stock_def insert_order_item_def comp_def if_distrib
               split: option.splits quantity.splits cong: if_cong)

text \<open>When the second loop runs to its end, the items it has appended add up to the total.\<close>

lemma add_items_total:
  assumes "distinct (map p_id ps)"
    and "map (\<lambda>p. (p_id p, p_price p)) (products d) = map (\<lambda>p. (p_id p, p_price p)) ps"
    and "verify_stock ps its (Some acc) = Inr (Some tot)"
    and "snd (add_items orderId its d)"
  shows "\<exists>new. order_items (fst (add_items orderId its d)) = order_items d @ new \<and>
               list_all (\<lambda>oi. oi_order_id oi = orderId) new \<and>
               foldl (\<lambda>tot oi. dadd tot (dmul (oi_price oi) (of_int (oi_quantity oi)))) acc new = tot"
  using assms(2,3,4)
proof (induction its arbitrary: d acc)
  case Nil
  then show ?case by simp
next
  case (Cons item rest)
  from Cons.prems(3) obtain prow' n where
    found': "getOne (filter (\<lambda>p. p_id p = product_id item) (products d)) = Some prow'"
    and qty: "quantity item = Quantity n"
    by (auto split: option.splits quantity.splits)
  from Cons.prems(2) qty obtain prow where
    found: "getOne (filter (\<lambda>p. p_id p = product_id item \<and> p_is_active p) ps) = Some prow"
    and rest: "verify_stock ps rest (Some (dadd acc (dmul (p_price prow) (of_int n)))) = Inr (Some tot)"
    by (auto simp: line_amount_def add_amount_def split: option.splits if_splits)
  from getOne_filter_distinct [OF assms(1) found]
  have "getOne (filter (\<lambda>p. p_id p = product_id item) ps) = Some prow" .
  with getOne_filter_same_prices [OF Cons.prems(1), of "product_id item"] found'
  have price: "p_price prow' = p_price prow"
    by simp
  let ?d1 = "decrement_stock (product_id item) n
               (insert_order_item orderId (product_id item) n (p_price prow') d)"
  have step: "add_items orderId (item # rest) d = add_items orderId rest ?d1"
    by (simp add: found' qty)
  have prices: "map (\<lambda>p. (p_id p, p_price p)) (products ?d1) = map (\<lambda>p. (p_id p, p_price p)) ps"
    unfolding prices_after_line by (rule Cons.prems(1))
  from Cons.prems(3) have ran: "snd (add_items orderId rest ?d1)"
    unfolding step .
  from Cons.IH [OF prices rest ran] obtain new where
    new: "order_items (fst (add_items orderId rest ?d1)) = order_items ?d1 @ new"
      "list_all (\<lambda>oi. oi_order_id oi = orderId) new"
      "foldl (\<lambda>tot oi. dadd tot (dmul (oi_price oi) (of_int (oi_quantity oi))))
         (dadd acc (dmul (p_price prow) (of_int n))) new = tot"
    by blast
  let ?line = "\<lparr>oi_id = Suc (seq_order_items d), oi_order_id = orderId,
            oi_product_id = product_id item, oi_quantity = n, oi_price = p_price prow'\<rparr>"
  have d1: "order_items ?d1 = order_items d @ [?line]"
    by (simp add: decrement_stock_def insert_order_item_def)
  have "order_items (fst (add_items orderId rest ?d1)) = order_items d @ (?line # new)"
    unfolding new(1) d1 by simp
  moreover have "list_all (\<lambda>oi. oi_order_id oi = orderId) (?line # new)"
    using new(2) by simp
  moreover have "foldl (\<lambda>tot oi. dadd tot (dmul (oi_price oi) (of_int (oi_quantity oi)))) acc (?line # new) = tot"
    using new(3) by (simp add: price)
  ultimately show ?case
    unfolding step by blast
qed

lemma filter_other_order:
  assumes "list_all (\<lambda>oi. oi_order_id oi = k) new" and "i \<noteq> k"
  shows "filter (\<lambda>oi. oi_order_id oi = i) new = []"
  using assms by (auto simp: list_all_iff filter_empty_conv)

lemma filter_this_order:
  assumes "list_all (\<lambda>oi. oi_order_id oi = k) new"
  shows "filter (\<lambda>oi. oi_order_id oi = k) new = new"
  using assms by (simp add: list_all_iff)

lemma filter_fresh_order:
  assumes "list_all (\<lambda>oi. oi_order_id oi \<le> n) ois" and "n < k"
  shows "filter (\<lambda>oi. oi_order_id oi = k) ois = []"
  using assms by (auto simp: list_all_iff filter_empty_conv)

lemma list_all_p_id:
  "list_all (\<lambda>p. p_id p \<le> n) ps = list_all (\<lambda>i. i \<le> n) (map p_id ps)"
  by (simp add: list_all_iff)

lemma consistent_ledger:
  assumes "ledger d' = ledger d"
  shows "consistent d' = consistent d"
  using assms unfolding consistent_def list_all_p_id ledger_def by simp

lemma fresh_store_consistent: "fresh_store d \<Longrightarrow> consistent d"
  by (simp add: fresh_store_def consistent_def order_keys_def)

lemma createOrder_cases:
  obtains (refused) s where "createOrder now d tok body = (d, Status s)"
  | (verified) user :: user_row and tot
      where "verify_stock (products d) (items body) (Some 0) = Inr (Some tot)"
      and "createOrder now d tok body =
             (fst (add_items (Suc (seq_orders d)) (items body) (insert_order now (u_id user) tot body d)),
              if snd (add_items (Suc (seq_orders d)) (items body) (insert_order now (u_id user) tot body d))
              then OrderCreated (Suc (seq_orders d)) tot else Status 500)"
proof (cases "authenticateToken d tok")
  case (Inl s)
  then have "createOrder now d tok body = (d, Status s)"
    by (simp add: createOrder_def requireRole_def)
  then show ?thesis by (rule refused)
next
  case (Inr user)
  show ?thesis
  proof (cases "verify_stock (products d) (items body) (Some 0)")
    case (Inl s)
    with Inr have "\<exists>s'. createOrder now d tok body = (d, Status s')"
      by (simp add: createOrder_def requireRole_def)
    then show ?thesis using refused by blast
  next
    case verdict: (Inr total)
    show ?thesis
    proof (cases total)
      case None
      with Inr verdict have "\<exists>s'. createOrder now d tok body = (d, Status s')"
        by (simp add: createOrder_def requireRole_def)
      then show ?thesis using refused by blast
    next
      case (Some tot)
      let ?run = "add_items (Suc (seq_orders d)) (items body) (insert_order now (u_id user) tot body d)"
      have seq: "seq_orders (insert_order now (u_id user) tot body d) = Suc (seq_orders d)"
        by (simp add: insert_order_def)
      from verdict Some have v: "verify_stock (products d) (items body) (Some 0) = Inr (Some tot)"
        by simp
      show ?thesis
      proof (cases "u_role user \<in> set [''buyer''] \<and> items body \<noteq> [] \<and>
                    truthy_str (contact_name body) \<and> truthy_str (contact_email body)")
        case True
        with Inr v
        have "createOrder now d tok body = (fst ?run, if snd ?run then OrderCreated (Suc (seq_orders d)) tot else Status 500)"
          by (cases ?run) (simp add: createOrder_def requireRole_def Let_def seq split: bool.splits)
        with v show ?thesis by (rule verified)
      next
        case False
        with Inr
        have "\<exists>s'. createOrder now d tok body = (d, Status s')"
          by (auto simp: createOrder_def requireRole_def)
        then show ?thesis using refused by blast
      qed
    qed
  qed
qed

text \<open>
  What a step may do to the orders: the orders there are keep their ids and totals, in
  front of new orders with new ids, and keep their order items.
\<close>

lemma createOrder_grows:
  assumes "consistent d"
  shows "consistent (fst (createOrder now d tok body)) \<and>
         (\<exists>ys. order_keys (fst (createOrder now d tok body)) = order_keys d @ ys \<and>
               list_all (\<lambda>(i, t). seq_orders d < i) ys) \<and>
         seq_orders d \<le> seq_orders (fst (createOrder now d tok body)) \<and>
         (\<forall>i \<le> seq_orders d. order_lines (fst (createOrder now d tok body)) i = order_lines d i)"
proof (cases rule: createOrder_cases [of now d tok body])
  case (refused s)
  with assms show ?thesis by simp
next
  case (verified user tot)
  let ?k = "Suc (seq_orders d)"
  let ?d1 = "insert_order now (u_id user) tot body d"
  let ?d2 = "fst (add_items ?k (items body) ?d1)"
  from assms have dist: "distinct (map p_id (products d))"
    and below: "list_all (\<lambda>i. i \<le> seq_products d) (map p_id (products d))"
    and keys: "list_all (\<lambda>(i, t). i \<le> seq_orders d) (order_keys d)"
    and old: "list_all (\<lambda>oi. oi_order_id oi \<le> seq_orders d) (order_items d)"
    unfolding consistent_def list_all_p_id by blast+
  have d1: "products ?d1 = products d" "order_items ?d1 = order_items d"
    "seq_orders ?d1 = ?k" "seq_products ?d1 = seq_products d"
    "order_keys ?d1 = order_keys d @ [(?k, tot)]"
    by (simp_all add: insert_order_def order_keys_def)
  from add_items_lines [of ?k "items body" ?d1] obtain new
    where items: "order_items ?d2 = order_items d @ new"
      and mine: "list_all (\<lambda>oi. oi_order_id oi = ?k) new"
    unfolding d1 by blast
  from add_items_frame [of ?k "items body" ?d1]
  have d2: "orders ?d2 = orders ?d1" "seq_orders ?d2 = ?k"
      "map p_id (products ?d2) = map p_id (products d)" "seq_products ?d2 = seq_products d"
    unfolding d1 by blast+
  have keys2: "order_keys ?d2 = order_keys d @ [(?k, tot)]"
    using d2(1) d1(5) by (simp add: order_keys_def)
  have c3: "list_all (\<lambda>(i, t). i \<le> seq_orders ?d2) (order_keys ?d2)"
    unfolding keys2 d2 using keys by (auto simp: list_all_iff)
  have c4: "list_all (\<lambda>oi. oi_order_id oi \<le> seq_orders ?d2) (order_items ?d2)"
    unfolding items d2 using old mine by (auto simp: list_all_iff)
  from dist below c3 c4 have c: "consistent ?d2"
    unfolding consistent_def list_all_p_id d2 by blast
  have kept: "order_lines ?d2 i = order_lines d i" if "i \<le> seq_orders d" for i
  proof -
    from that have "i \<noteq> ?k" by simp
    with mine have "filter (\<lambda>oi. oi_order_id oi = i) new = []" by (rule filter_other_order)
    then show ?thesis by (simp add: order_lines_def items)
  qed
  have "list_all (\<lambda>(i, t). seq_orders d < i) [(?k, tot)]"
    by simp
  with keys2 have "\<exists>ys. order_keys ?d2 = order_keys d @ ys \<and> list_all (\<lambda>(i, t). seq_orders d < i) ys"
    by blast
  with c kept d2(2) show ?thesis
    unfolding verified(2) fst_conv by simp
qed

text \<open>
  What \<^verbatim>\<open>POST /orders\<close> has done when it answers 201: the order has the next id and the
  total answered, and its order items add up to that total.
\<close>

lemma createOrder_created:
  assumes "consistent d"
    and "snd (createOrder now d tok body) = OrderCreated orderId tot"
  shows "orderId = Suc (seq_orders d) \<and>
         order_keys (fst (createOrder now d tok body)) = order_keys d @ [(orderId, tot)] \<and>
         seq_orders (fst (createOrder now d tok body)) = orderId \<and>
         double_sum (order_lines (fst (createOrder now d tok body)) orderId) = tot"
proof (cases rule: createOrder_cases [of now d tok body])
  case (refused s)
  with assms(2) show ?thesis by simp
next
  case (verified user tot')
  let ?k = "Suc (seq_orders d)"
  let ?d1 = "insert_order now (u_id user) tot' body d"
  let ?d2 = "fst (add_items ?k (items body) ?d1)"
  from assms(2) have ok: "snd (add_items ?k (items body) ?d1)"
    and k: "orderId = ?k" and t: "tot' = tot"
    unfolding verified(2) by (simp_all split: if_splits)
  from assms(1) have dist: "distinct (map p_id (products d))"
    and old: "list_all (\<lambda>oi. oi_order_id oi \<le> seq_orders d) (order_items d)"
    unfolding consistent_def by blast+
  have d1: "products ?d1 = products d" "order_items ?d1 = order_items d"
    "order_keys ?d1 = order_keys d @ [(?k, tot')]"
    by (simp_all add: insert_order_def order_keys_def)
  have prices: "map (\<lambda>p. (p_id p, p_price p)) (products ?d1) = map (\<lambda>p. (p_id p, p_price p)) (products d)"
    by (simp add: d1)
  from add_items_total [OF dist prices verified(1) ok] obtain new where
    items: "order_items ?d2 = order_items d @ new"
    and mine: "list_all (\<lambda>oi. oi_order_id oi = ?k) new"
    and sum: "double_sum new = tot'"
    unfolding d1 double_sum_def by blast
  from add_items_frame [of ?k "items body" ?d1]
  have d2: "orders ?d2 = orders ?d1" "seq_orders ?d2 = ?k"
    by (simp_all add: insert_order_def)
  have keys2: "order_keys ?d2 = order_keys d @ [(?k, tot')]"
    using d2(1) d1(3) by (simp add: order_keys_def)
  have "filter (\<lambda>oi. oi_order_id oi = ?k) (order_items d) = []"
    using old by (rule filter_fresh_order) simp
  with filter_this_order [OF mine] have "order_lines ?d2 ?k = new"
    by (simp add: order_lines_def items)
  with sum keys2 d2(2) show ?thesis
    unfolding verified(2) fst_conv k t by simp
qed

lemma createProduct_cases:
  "orders (fst (createProduct now d tok body)) = orders d \<and>
   order_items (fst (createProduct now d tok body)) = order_items d \<and>
   seq_orders (fst (createProduct now d tok body)) = seq_orders d \<and>
   (map p_id (products (fst (createProduct now d tok body))) = map p_id (products d) \<and>
    seq_products (fst (createProduct now d tok body)) = seq_products d \<or>
    map p_id (products (fst (createProduct now d tok body))) = map p_id (products d) @ [Suc (seq_products d)] \<and>
    seq_products (fst (createProduct now d tok body)) = Suc (seq_products d))"
  unfolding createProduct_def
  by (rule requireRole_fst) (auto split: option.splits)

lemma ids_after_insert:
  assumes "distinct ids" and "list_all (\<lambda>i. i \<le> n) ids"
    and "ids' = ids \<and> n' = n \<or> ids' = ids @ [Suc n] \<and> n' = Suc n"
  shows "distinct ids' \<and> list_all (\<lambda>i. i \<le> n') ids'"
proof -
  from assms(2) have le: "i \<le> n" if "i \<in> set ids" for i
    using that by (simp add: list_all_iff)
  have fresh: "Suc n \<notin> set ids"
  proof
    assume "Suc n \<in> set ids"
    then have "Suc n \<le> n" by (rule le)
    then show False by simp
  qed
  from assms(3) show ?thesis
  proof
    assume "ids' = ids \<and> n' = n"
    with assms(1,2) show ?thesis by simp
  next
    assume grown: "ids' = ids @ [Suc n] \<and> n' = Suc n"
    have "i \<le> Suc n" if "i \<in> set ids" for i
      using le [OF that] by simp
    then have "list_all (\<lambda>i. i \<le> Suc n) (ids @ [Suc n])"
      by (simp add: list_all_iff)
    with assms(1) fresh grown show ?thesis by simp
  qed
qed

lemma createProduct_grows:
  assumes "consistent d"
  shows "consistent (fst (createProduct now d tok body)) \<and>
         ledger (fst (createProduct now d tok body)) = ledger d \<or>
         consistent (fst (createProduct now d tok body)) \<and>
         order_keys (fst (createProduct now d tok body)) = order_keys d \<and>
         seq_orders (fst (createProduct now d tok body)) = seq_orders d \<and>
         order_items (fst (createProduct now d tok body)) = order_items d"
proof -
  let ?d' = "fst (createProduct now d tok body)"
  from createProduct_cases [of now d tok body]
  have same: "orders ?d' = orders d" "order_items ?d' = order_items d" "seq_orders ?d' = seq_orders d"
    and ids: "map p_id (products ?d') = map p_id (products d) \<and> seq_products ?d' = seq_products d \<or>
              map p_id (products ?d') = map p_id (products d) @ [Suc (seq_products d)] \<and>
              seq_products ?d' = Suc (seq_products d)"
    by blast+
  from assms have c: "distinct (map p_id (products d))"
      "list_all (\<lambda>i. i \<le> seq_products d) (map p_id (products d))"
      "list_all (\<lambda>(i, t). i \<le> seq_orders d) (order_keys d)"
      "list_all (\<lambda>oi. oi_order_id oi \<le> seq_orders d) (order_items d)"
    unfolding consistent_def list_all_p_id by blast+
  have keys: "order_keys ?d' = order_keys d"
    by (simp add: order_keys_def same)
  from c(1,2) ids
  have "distinct (map p_id (products ?d')) \<and>
        list_all (\<lambda>i. i \<le> seq_products ?d') (map p_id (products ?d'))"
    by (rule ids_after_insert)
  with c(3,4) have "consistent ?d'"
    unfolding consistent_def list_all_p_id keys same by blast
  with keys same show ?thesis by blast
qed

text \<open>
  Every step either leaves the ledger as it is, or is a \<^verbatim>\<open>POST /products\<close>, or is a
  \<^verbatim>\<open>POST /orders\<close>.
\<close>

lemma handle_cases:
  "ledger (fst (handle hash d rq)) = ledger d \<or>
   (\<exists>now tok body. fst (handle hash d rq) = fst (createProduct now d tok body)) \<or>
   (\<exists>now tok body. fst (handle hash d rq) = fst (createOrder now d tok body))"
proof -
  obtain now req where rq: "rq = (now, req)" by (cases rq)
  show ?thesis
  proof (cases req)
    case (Register body)
    show ?thesis unfolding rq Register handle.simps
      by (simp add: ledger_register)
  next
    case (CreateSeller tok body)
    show ?thesis unfolding rq CreateSeller handle.simps
      by (simp add: ledger_createSeller)
  next
    case (InsertAccount role mail pw wallet)
    show ?thesis unfolding rq InsertAccount handle.simps
      by (simp add: ledger_insert_account)
  next
    case (UpdateSeller tok sellerId body)
    show ?thesis unfolding rq UpdateSeller handle.simps
      by (simp add: ledger_updateSeller)
  next
    case (WriteSeller sellerId body seller)
    show ?thesis unfolding rq WriteSeller handle.simps
      by (simp add: ledger_updateSeller_write)
  next
    case (DeactivateSeller tok sellerId)
    show ?thesis unfolding rq DeactivateSeller handle.simps
      by (simp add: ledger_deactivateSeller)
  next
    case (UpdateEarnings tok sellerId body)
    show ?thesis unfolding rq UpdateEarnings handle.simps
      by (simp add: ledger_updateEarnings)
  next
    case (AssignSale tok sellerId body)
    show ?thesis unfolding rq AssignSale handle.simps
      by (simp add: ledger_assignSale)
  next
    case (CreateProduct tok body)
    show ?thesis unfolding rq CreateProduct handle.simps
      by blast
  next
    case (UpdateProduct tok pid body)
    show ?thesis unfolding rq UpdateProduct handle.simps
      by (simp add: ledger_updateProduct)
  next
    case (DeleteProduct tok pid)
    show ?thesis unfolding rq DeleteProduct handle.simps
      by (simp add: ledger_deleteProduct)
  next
    case (CreateOrder tok body)
    show ?thesis unfolding rq CreateOrder handle.simps
      by blast
  next
    case (UpdateStatus tok orderId body)
    show ?thesis unfolding rq UpdateStatus handle.simps
      by (simp add: ledger_updateStatus)
  next
    case (PaymentProof tok orderId body)
    show ?thesis unfolding rq PaymentProof handle.simps
      by (simp add: ledger_paymentProof)
  next
    case (CreatePayment secret stamp tok body)
    show ?thesis unfolding rq CreatePayment handle.simps
      by (simp add: ledger_createPayment)
  next
    case (Webhook req')
    show ?thesis unfolding rq Webhook handle.simps
      by (simp add: ledger_webhook)
  qed
qed

lemma handle_grows:
  assumes "consistent d"
  shows "consistent (fst (handle hash d rq)) \<and>
         (\<exists>ys. order_keys (fst (handle hash d rq)) = order_keys d @ ys \<and>
               list_all (\<lambda>(i, t). seq_orders d < i) ys) \<and>
         seq_orders d \<le> seq_orders (fst (handle hash d rq)) \<and>
         (\<forall>i \<le> seq_orders d. order_lines (fst (handle hash d rq)) i = order_lines d i)"
  using handle_cases [of hash d rq]
proof (elim disjE exE)
  assume same: "ledger (fst (handle hash d rq)) = ledger d"
  then have "order_keys (fst (handle hash d rq)) = order_keys d @ []"
    and "seq_orders (fst (handle hash d rq)) = seq_orders d"
    and "order_lines (fst (handle hash d rq)) i = order_lines d i" for i
    by (simp_all add: ledger_def order_lines_def)
  moreover have "list_all (\<lambda>(i, t). seq_orders d < i) []"
    by simp
  moreover from assms have "consistent (fst (handle hash d rq))"
    by (simp add: consistent_ledger [OF same])
  ultimately show ?thesis by (metis order_refl)
next
  fix now tok body
  assume step: "fst (handle hash d rq) = fst (createProduct now d tok body)"
  from createProduct_grows [OF assms, of now tok body]
  have "consistent (fst (createProduct now d tok body))"
    and "order_keys (fst (createProduct now d tok body)) = order_keys d @ []"
    and "seq_orders (fst (createProduct now d tok body)) = seq_orders d"
    and "order_lines (fst (createProduct now d tok body)) i = order_lines d i" for i
    by (auto simp: ledger_def order_lines_def)
  moreover have "list_all (\<lambda>(i, t). seq_orders d < i) []"
    by simp
  ultimately show ?thesis unfolding step by (metis order_refl)
next
  fix now tok body
  assume "fst (handle hash d rq) = fst (createOrder now d tok body)"
  with createOrder_grows [OF assms, of now tok body] show ?thesis by simp
qed

lemma run_grows:
  assumes "consistent d"
  shows "consistent (run hash d rqs) \<and>
         (\<exists>ys. order_keys (run hash d rqs) = order_keys d @ ys \<and>
               list_all (\<lambda>(i, t). seq_orders d < i) ys) \<and>
         seq_orders d \<le> seq_orders (run hash d rqs) \<and>
         (\<forall>i \<le> seq_orders d. order_lines (run hash d rqs) i = order_lines d i)"
  using assms
proof (induction rqs arbitrary: d)
  case Nil
  have "order_keys d = order_keys d @ [] \<and> list_all (\<lambda>(i, t). seq_orders d < i) []"
    by simp
  with Nil show ?case unfolding run.simps by blast
next
  case (Cons rq rqs)
  let ?d1 = "fst (handle hash d rq)"
  let ?d2 = "run hash ?d1 rqs"
  from handle_grows [OF Cons.prems, of hash rq] obtain ys
    where c1: "consistent ?d1"
      and k1: "order_keys ?d1 = order_keys d @ ys" and n1: "list_all (\<lambda>(i, t). seq_orders d < i) ys"
      and s1: "seq_orders d \<le> seq_orders ?d1"
      and l1: "\<And>i. i \<le> seq_orders d \<Longrightarrow> order_lines ?d1 i = order_lines d i"
    by blast
  from Cons.IH [OF c1] obtain zs
    where c2: "consistent ?d2"
      and k2: "order_keys ?d2 = order_keys ?d1 @ zs" and n2: "list_all (\<lambda>(i, t). seq_orders ?d1 < i) zs"
      and s2: "seq_orders ?d1 \<le> seq_orders ?d2"
      and l2: "\<And>i. i \<le> seq_orders ?d1 \<Longrightarrow> order_lines ?d2 i = order_lines ?d1 i"
    by blast
  from k1 k2 have k: "order_keys ?d2 = order_keys d @ (ys @ zs)"
    by simp
  from n2 s1 have "list_all (\<lambda>(i, t). seq_orders d < i) zs"
    by (auto simp: list_all_iff)
  with n1 have n: "list_all (\<lambda>(i, t). seq_orders d < i) (ys @ zs)"
    by simp
  have l: "order_lines ?d2 i = order_lines d i" if "i \<le> seq_orders d" for i
  proof -
    from that s1 have "i \<le> seq_orders ?d1" by simp
    from l2 [OF this] l1 [OF that] show ?thesis by simp
  qed
  from s1 s2 have s: "seq_orders d \<le> seq_orders ?d2" by simp
  from k n have "\<exists>ys. order_keys ?d2 = order_keys d @ ys \<and> list_all (\<lambda>(i, t). seq_orders d < i) ys"
    by blast
  with c2 s l show ?case
    unfolding run.simps by blast
qed

text \<open>
  C2, as the claim states it: the total of an order is the sum over its items of quantity
  times captured price. This fails on the code, whose numbers are doubles. A product is
  created with the price 0.1 and an order takes three of it: the total answered and
  stored is the double that prints as 0.30000000000000004, while the one item of the
  order has the quantity 3 and the price it captured, the double nearest to 0.1, and
  three times that price is another number; so is 0.3, and so is the double nearest to
  0.3.
\<close>

theorem three_dimes_total:
  "map p_price (products (run rev shop0 [(50, CreateProduct (ValidToken 1) dime)]))
     = [10, 3602879701896397 / 36028797018963968] \<and>
   createOrder 100 (run rev shop0 [(50, CreateProduct (ValidToken 1) dime)]) (ValidToken 2) three_dimes
     = (run rev shop0 [(50, CreateProduct (ValidToken 1) dime), (100, CreateOrder (ValidToken 2) three_dimes)],
        OrderCreated 1 (1351079888211149 / 4503599627370496)) \<and>
   map (\<lambda>r. (o_id r, o_total_amount r))
     (orders (run rev shop0 [(50, CreateProduct (ValidToken 1) dime), (100, CreateOrder (ValidToken 2) three_dimes)]))
     = [(1, 1351079888211149 / 4503599627370496)] \<and>
   map (\<lambda>oi. (oi_order_id oi, oi_quantity oi, oi_price oi))
     (order_items (run rev shop0 [(50, CreateProduct (ValidToken 1) dime), (100, CreateOrder (ValidToken 2) three_dimes)]))
     = [(1, 3, 3602879701896397 / 36028797018963968)] \<and>
   exact_total (run rev shop0 [(50, CreateProduct (ValidToken 1) dime), (100, CreateOrder (ValidToken 2) three_dimes)]) 1
     = 10808639105689191 / 36028797018963968 \<and>
   (1351079888211149 / 4503599627370496 :: rat) \<noteq> 10808639105689191 / 36028797018963968 \<and>
   (1351079888211149 / 4503599627370496 :: rat) \<noteq> 3 / 10 \<and>
   (1351079888211149 / 4503599627370496 :: rat) \<noteq> dbl (3 / 10)"
  by code_simp

text \<open>
  A request that is answered 500 can leave an order behind: with \<^verbatim>\<open>null\<close> as the quantity
  of its first line the order is inserted with the total of the other lines, and the
  first \<^verbatim>\<open>INSERT\<close> of an order item throws. Such an order has a total and no items; the
  orders of other requests are as they were.
\<close>

lemma null_quantity_leaves_order:
  "snd (createOrder 100 shop0 (ValidToken 2) null_line) = Status 500 \<and>
   map (\<lambda>r. (o_id r, o_total_amount r)) (orders (fst (createOrder 100 shop0 (ValidToken 2) null_line)))
     = [(1, 20)] \<and>
   order_items (fst (createOrder 100 shop0 (ValidToken 2) null_line)) = [] \<and>
   map p_stock (products (fst (createOrder 100 shop0 (ValidToken 2) null_line))) = [3]"
  by code_simp

text \<open>
  C2, amended. In a store that started without orders and has handled any steps since,
  let \<^verbatim>\<open>POST /orders\<close> create an order (201, with its id and total). Then, after any further
  steps (price updates of products among them), the order is in the store, its
  \<^verbatim>\<open>total_amount\<close> is the total answered at creation, its order items are the ones it was
  created with, and the total is the total of these items as doubles add up: from 0, in
  the order of the items, adding to the sum so far the price captured times the
  quantity, every product and every sum rounded to a double.
\<close>

theorem order_total_is_double_sum_of_items:
  assumes "fresh_store d0"
    and "snd (createOrder now (run hash d0 before) tok body) = OrderCreated orderId tot"
  shows "(\<exists>r \<in> set (orders (run hash (fst (createOrder now (run hash d0 before) tok body)) after)).
            o_id r = orderId) \<and>
         (\<forall>r \<in> set (orders (run hash (fst (createOrder now (run hash d0 before) tok body)) after)).
            o_id r = orderId \<longrightarrow> o_total_amount r = tot) \<and>
         order_lines (run hash (fst (createOrder now (run hash d0 before) tok body)) after) orderId
           = order_lines (fst (createOrder now (run hash d0 before) tok body)) orderId \<and>
         double_sum (order_lines (run hash (fst (createOrder now (run hash d0 before) tok body)) after) orderId)
           = tot"
proof -
  let ?d = "run hash d0 before"
  let ?d1 = "fst (createOrder now ?d tok body)"
  let ?d2 = "run hash ?d1 after"
  from fresh_store_consistent [OF assms(1)] have c: "consistent ?d"
    using run_grows by blast
  from createOrder_created [OF c assms(2)]
  have k: "orderId = Suc (seq_orders ?d)"
    and k1: "order_keys ?d1 = order_keys ?d @ [(orderId, tot)]"
    and s1: "seq_orders ?d1 = orderId"
    and sum1: "double_sum (order_lines ?d1 orderId) = tot"
    by blast+
  from createOrder_grows [OF c, of now tok body] have c1: "consistent ?d1"
    by blast
  from run_grows [OF c1, of hash after] obtain ys
    where k2: "order_keys ?d2 = order_keys ?d1 @ ys"
      and later: "list_all (\<lambda>(i, t). seq_orders ?d1 < i) ys"
      and kept: "\<And>i. i \<le> seq_orders ?d1 \<Longrightarrow> order_lines ?d2 i = order_lines ?d1 i"
    by blast
  from kept [of orderId] s1 have lines: "order_lines ?d2 orderId = order_lines ?d1 orderId"
    by simp
  from c have earlier: "list_all (\<lambda>(i, t). i \<le> seq_orders ?d) (order_keys ?d)"
    by (simp add: consistent_def)
  have keys: "order_keys ?d2 = order_keys ?d @ [(orderId, tot)] @ ys"
    unfolding k2 k1 by simp
  then have "(orderId, tot) \<in> set (order_keys ?d2)"
    by simp
  then have ex: "\<exists>r \<in> set (orders ?d2). o_id r = orderId"
    by (auto simp: order_keys_def)
  have "o_total_amount r = tot" if "r \<in> set (orders ?d2)" and "o_id r = orderId" for r
  proof -
    from that have "(orderId, o_total_amount r) \<in> set (order_keys ?d2)"
      by (auto simp: order_keys_def)
    then consider "(orderId, o_total_amount r) \<in> set (order_keys ?d)"
      | "(orderId, o_total_amount r) = (orderId, tot)"
      | "(orderId, o_total_amount r) \<in> set ys"
      unfolding keys by auto
    then show ?thesis
    proof cases
      case 1
      with earlier have "orderId \<le> seq_orders ?d" by (auto simp: list_all_iff)
      with k show ?thesis by simp
    next
      case 2
      then show ?thesis by simp
    next
      case 3
      with later have "seq_orders ?d1 < orderId" by (auto simp: list_all_iff)
      with s1 show ?thesis by simp
    qed
  qed
  with ex lines sum1 show ?thesis by simp
qed

theorem order_total_is_double_sum_of_items_witness:
  "fresh_store shop0 \<and>
   snd (createOrder 100 (run rev shop0 [(50, CreateProduct (ValidToken 1) dime)]) (ValidToken 2) three_dimes)
     = OrderCreated 1 (1351079888211149 / 4503599627370496) \<and>
   map p_price (products (run rev
      (fst (createOrder 100 (run rev shop0 [(50, CreateProduct (ValidToken 1) dime)]) (ValidToken 2) three_dimes))
      [(101, UpdateProduct (ValidToken 1) 2 reprice), (102, UpdateStatus (ValidToken 3) 1 claim)])) = [10, 99] \<and>
   map o_total_amount (orders (run rev
      (fst (createOrder 100 (run rev shop0 [(50, CreateProduct (ValidToken 1) dime)]) (ValidToken 2) three_dimes))
      [(101, UpdateProduct (ValidToken 1) 2 reprice), (102, UpdateStatus (ValidToken 3) 1 claim)]))
     = [1351079888211149 / 4503599627370496] \<and>
   map (\<lambda>oi. (oi_quantity oi, oi_price oi)) (order_lines (run rev
      (fst (createOrder 100 (run rev shop0 [(50, CreateProduct (ValidToken 1) dime)]) (ValidToken 2) three_dimes))
      [(101, UpdateProduct (ValidToken 1) 2 reprice), (102, UpdateStatus (ValidToken 3) 1 claim)]) 1)
     = [(3, 3602879701896397 / 36028797018963968)] \<and>
   double_sum (order_lines (run rev
      (fst (createOrder 100 (run rev shop0 [(50, CreateProduct (ValidToken 1) dime)]) (ValidToken 2) three_dimes))
      [(101, UpdateProduct (ValidToken 1) 2 reprice), (102, UpdateStatus (ValidToken 3) 1 claim)]) 1)
     = 1351079888211149 / 4503599627370496"
proof -
  let ?before = "[(50, CreateProduct (ValidToken 1) dime)]"
  let ?after = "[(101, UpdateProduct (ValidToken 1) 2 reprice), (102, UpdateStatus (ValidToken 3) 1 claim)]"
  let ?d1 = "fst (createOrder 100 (run rev shop0 ?before) (ValidToken 2) three_dimes)"
  have f: "fresh_store shop0" by code_simp
  have c: "snd (createOrder 100 (run rev shop0 ?before) (ValidToken 2) three_dimes)
             = OrderCreated 1 (1351079888211149 / 4503599627370496)"
    by code_simp
  have p: "map p_price (products (run rev ?d1 ?after)) = [10, 99]"
    by code_simp
  have t: "map o_total_amount (orders (run rev ?d1 ?after)) = [1351079888211149 / 4503599627370496]"
    by code_simp
  have l: "map (\<lambda>oi. (oi_quantity oi, oi_price oi)) (order_lines ?d1 1)
             = [(3, 3602879701896397 / 36028797018963968)]"
    by code_simp
  from order_total_is_double_sum_of_items [OF f c, of ?after]
  have "order_lines (run rev ?d1 ?after) 1 = order_lines ?d1 1"
    and "double_sum (order_lines (run rev ?d1 ?after) 1) = 1351079888211149 / 4503599627370496"
    by blast+
  with f c p t l show ?thesis by simp
qed

section \<open>Orders without repeated products\<close>

text \<open>
  The stock check of \<^verbatim>\<open>POST /orders\<close> does keep stocks from going below zero when no two
  lines of the order name the same product: what it misses (C1) is only the repeated
  product.
\<close>

lemma verify_stock_covers:
  assumes "verify_stock ps its acc = Inr tot" and "item \<in> set its"
  shows "\<exists>prow. getOne (filter (\<lambda>p. p_id p = product_id item \<and> p_is_active p) ps) = Some prow \<and>
                \<not> stock_short (p_stock prow) (quantity item)"
  using assms
proof (induction its arbitrary: acc)
  case Nil
  then show ?case by simp
next
  case (Cons it rest)
  from Cons.prems(1) obtain prow where
    found: "getOne (filter (\<lambda>p. p_id p = product_id it \<and> p_is_active p) ps) = Some prow"
    and enough: "\<not> stock_short (p_stock prow) (quantity it)"
    and rest: "verify_stock ps rest (add_amount acc (line_amount (p_price prow) (quantity it))) = Inr tot"
    by (auto split: option.splits if_splits)
  show ?case
  proof (cases "item = it")
    case True
    with found enough show ?thesis by blast
  next
    case False
    with Cons.prems(2) have "item \<in> set rest" by simp
    from Cons.IH [OF rest this] show ?thesis .
  qed
qed

lemma verify_stock_enough:
  assumes "distinct (map p_id ps)" and "verify_stock ps its acc = Inr tot"
    and "item \<in> set its" and "p \<in> set ps" and "p_id p = product_id item"
    and "quantity item = Quantity n"
  shows "n \<le> p_stock p"
proof -
  from verify_stock_covers [OF assms(2,3)] obtain prow where
    found: "getOne (filter (\<lambda>p. p_id p = product_id item \<and> p_is_active p) ps) = Some prow"
    and enough: "\<not> stock_short (p_stock prow) (quantity item)"
    by blast
  from getOne_filter_Some [OF found] have "prow \<in> set ps" and "p_id prow = product_id item"
    by blast+
  moreover from assms(1) have "inj_on p_id (set ps)"
    by (simp add: distinct_map)
  ultimately have "prow = p"
    using assms(4,5) by (metis inj_onD)
  with enough assms(6) show ?thesis by (simp add: stock_short_def)
qed

lemma add_items_stock:
  assumes "distinct (map product_id its)"
    and "list_all (\<lambda>p. 0 \<le> p_stock p) (products d)"
    and "\<forall>item \<in> set its. \<forall>n. quantity item = Quantity n \<longrightarrow>
           (\<forall>p \<in> set (products d). p_id p = product_id item \<longrightarrow> n \<le> p_stock p)"
  shows "list_all (\<lambda>p. 0 \<le> p_stock p) (products (fst (add_items orderId its d)))"
  using assms
proof (induction its arbitrary: d)
  case Nil
  then show ?case by simp
next
  case (Cons item rest)
  show ?case
  proof (cases "getOne (filter (\<lambda>p. p_id p = product_id item) (products d))")
    case None
    with Cons.prems(2) show ?thesis by simp
  next
    case (Some prow)
    show ?thesis
    proof (cases "quantity item")
      case (Quantity n)
      let ?d1 = "decrement_stock (product_id item) n
                   (insert_order_item orderId (product_id item) n (p_price prow) d)"
      let ?f = "\<lambda>p. if p_id p = product_id item then p\<lparr>p_stock := p_stock p - n\<rparr> else p"
      have prods: "products ?d1 = map ?f (products d)"
        by (simp add: decrement_stock_def insert_order_item_def)
      from Cons.prems(3) Quantity
      have enough: "\<forall>p \<in> set (products d). p_id p = product_id item \<longrightarrow> n \<le> p_stock p"
        by simp
      have nonneg: "list_all (\<lambda>p. 0 \<le> p_stock p) (products ?d1)"
        unfolding prods using Cons.prems(2) enough by (auto simp: list_all_iff)
      have others: "\<forall>it \<in> set rest. \<forall>m. quantity it = Quantity m \<longrightarrow>
                      (\<forall>p \<in> set (products ?d1). p_id p = product_id it \<longrightarrow> m \<le> p_stock p)"
      proof (intro ballI allI impI)
        fix it m p
        assume it: "it \<in> set rest" and m: "quantity it = Quantity m"
          and p: "p \<in> set (products ?d1)" and id: "p_id p = product_id it"
        from it have "product_id it \<in> product_id ` set rest"
          by (rule imageI)
        with Cons.prems(1) have neq: "product_id it \<noteq> product_id item"
          by auto
        from p obtain q where q: "q \<in> set (products d)" and pq: "p = ?f q"
          unfolding prods by auto
        from pq id neq have "p = q"
          by (auto split: if_splits)
        with q id it m Cons.prems(3) show "m \<le> p_stock p"
          by simp
      qed
      from Cons.prems(1) have "distinct (map product_id rest)" by simp
      from Cons.IH [OF this nonneg others] show ?thesis
        by (simp add: Some Quantity)
    next
      case Null
      with Some Cons.prems(2) show ?thesis by simp
    next
      case Absent
      with Some Cons.prems(2) show ?thesis by simp
    qed
  qed
qed

lemma createOrder_distinct_lines_keep_stock:
  assumes "distinct (map p_id (products d))"
    and "list_all (\<lambda>p. 0 \<le> p_stock p) (products d)"
    and "distinct (map product_id (items body))"
  shows "list_all (\<lambda>p. 0 \<le> p_stock p) (products (fst (createOrder now d tok body)))"
proof (cases rule: createOrder_cases [of now d tok body])
  case (refused s)
  with assms(2) show ?thesis by simp
next
  case (verified user tot)
  let ?d1 = "insert_order now (u_id user) tot body d"
  have prods: "products ?d1 = products d"
    by (simp add: insert_order_def)
  have "\<forall>item \<in> set (items body). \<forall>n. quantity item = Quantity n \<longrightarrow>
          (\<forall>p \<in> set (products ?d1). p_id p = product_id item \<longrightarrow> n \<le> p_stock p)"
    unfolding prods using verify_stock_enough [OF assms(1) verified(1)] by blast
  from add_items_stock [OF assms(3) _ this, of "Suc (seq_orders d)"] assms(2)
  show ?thesis
    unfolding verified(2) prods by simp
qed

end
